theory Spec2Isabelle
  imports Complex_Main
begin

section \<open>JavaScript values\<close>

text \<open>
  The values that \<^verbatim>\<open>response.json()\<close> can produce, plus \<^verbatim>\<open>undefined\<close>, which the
  program meets whenever it reads a property that is absent. A number is the parsed
  double; the program only tests numbers for truthiness and for being greater than zero,
  so a rational stands for it. An object is the list of its own properties, the first
  binding of a key being the one that is read.
\<close>

datatype js_val =
    JUndefined
  | JNull
  | JBool bool
  | JNum rat
  | JStr string
  | JArr "js_val list"
  | JObj "(string \<times> js_val) list"

datatype js_error = FetchError | InvalidJson | TypeError

text \<open>\<^verbatim>\<open>if (v)\<close>, \<^verbatim>\<open>v && ...\<close>: the falsy values are undefined, null, false, 0 and the empty string.\<close>

fun truthy :: "js_val \<Rightarrow> bool" where
  "truthy JUndefined = False"
| "truthy JNull = False"
| "truthy (JBool b) = b"
| "truthy (JNum r) = (r \<noteq> 0)"
| "truthy (JStr s) = (s \<noteq> [])"
| "truthy (JArr xs) = True"
| "truthy (JObj kvs) = True"

text \<open>
  \<^verbatim>\<open>v.k\<close> for the property names the program reads (choices, length, text, id, status,
  video_url): reading a property of undefined or null throws a TypeError, a primitive has
  none of them but the length of a string, an array has its length.
\<close>

fun get_prop :: "js_val \<Rightarrow> string \<Rightarrow> js_error + js_val" where
  "get_prop JUndefined k = Inl TypeError"
| "get_prop JNull k = Inl TypeError"
| "get_prop (JBool b) k = Inr JUndefined"
| "get_prop (JNum r) k = Inr JUndefined"
| "get_prop (JStr s) k = Inr (if k = ''length'' then JNum (of_nat (length s)) else JUndefined)"
| "get_prop (JArr xs) k = Inr (if k = ''length'' then JNum (of_nat (length xs)) else JUndefined)"
| "get_prop (JObj kvs) k = Inr (case map_of kvs k of None \<Rightarrow> JUndefined | Some v \<Rightarrow> v)"

text \<open>\<^verbatim>\<open>v[0]\<close>: the first element of an array, the first character of a string, the property "0" of an object.\<close>

fun get_elem0 :: "js_val \<Rightarrow> js_error + js_val" where
  "get_elem0 JUndefined = Inl TypeError"
| "get_elem0 JNull = Inl TypeError"
| "get_elem0 (JBool b) = Inr JUndefined"
| "get_elem0 (JNum r) = Inr JUndefined"
| "get_elem0 (JStr s) = Inr (case s of [] \<Rightarrow> JUndefined | c # cs \<Rightarrow> JStr [c])"
| "get_elem0 (JArr xs) = Inr (case xs of [] \<Rightarrow> JUndefined | x # ys \<Rightarrow> x)"
| "get_elem0 (JObj kvs) = Inr (case map_of kvs ''0'' of None \<Rightarrow> JUndefined | Some v \<Rightarrow> v)"

text \<open>
  \<^verbatim>\<open>String.prototype.trim\<close>. A string is a list of 8-bit characters; of the white space
  that \<^verbatim>\<open>trim\<close> removes, these have the ASCII part: tab, line feed, vertical tab, form
  feed, carriage return and space.
\<close>

definition is_space :: "char \<Rightarrow> bool" where
  "is_space c = (c \<in> set [CHR 0x09, CHR 0x0A, CHR 0x0B, CHR 0x0C, CHR 0x0D, CHR 0x20])"

definition trim :: "string \<Rightarrow> string" where
  "trim s = rev (dropWhile is_space (rev (dropWhile is_space s)))"

text \<open>
  \<^verbatim>\<open>v.trim()\<close>: only a string has a callable \<^verbatim>\<open>trim\<close>; on undefined and null the property
  read throws, on every other value the call of a non-function throws.
\<close>

fun call_trim :: "js_val \<Rightarrow> js_error + string" where
  "call_trim (JStr s) = Inr (trim s)"
| "call_trim v = Inl TypeError"

section \<open>The runtime: network and coercions\<close>

datatype request =
    Completions string
  | CreateGeneration string
  | CreateInterpolation js_val js_val string
  | GetGeneration string

datatype event = Fetch request | Sleep nat

text \<open>
  Everything outside the program. \<open>network\<close> is the outcome of \<^verbatim>\<open>await fetch(...)\<close>
  followed by \<^verbatim>\<open>await response.json()\<close>: given all that happened so far and the request,
  either the rejection or the parsed body. The other fields are the parts of ECMAScript's
  coercions that depend on number formatting, on number parsing or on ToPrimitive: the
  string of a number, whether a string read as a number is greater than zero, and ToString
  and \<^verbatim>\<open>v > 0\<close> on arrays and objects, which may throw.
\<close>

record runtime =
  network :: "event list \<Rightarrow> request \<Rightarrow> js_error + js_val"
  number_to_string :: "rat \<Rightarrow> string"
  string_gt_zero :: "string \<Rightarrow> bool"
  to_string_object :: "js_val \<Rightarrow> js_error + string"
  gt_zero_object :: "js_val \<Rightarrow> js_error + bool"

text \<open>The template literal \<^verbatim>\<open>`${v}`\<close>.\<close>

fun to_string :: "runtime \<Rightarrow> js_val \<Rightarrow> js_error + string" where
  "to_string rt JUndefined = Inr ''undefined''"
| "to_string rt JNull = Inr ''null''"
| "to_string rt (JBool b) = Inr (if b then ''true'' else ''false'')"
| "to_string rt (JNum r) = Inr (number_to_string rt r)"
| "to_string rt (JStr s) = Inr s"
| "to_string rt v = to_string_object rt v"

text \<open>\<^verbatim>\<open>v > 0\<close>: undefined is NaN, null is 0, true is 1.\<close>

fun gt_zero :: "runtime \<Rightarrow> js_val \<Rightarrow> js_error + bool" where
  "gt_zero rt JUndefined = Inr False"
| "gt_zero rt JNull = Inr False"
| "gt_zero rt (JBool b) = Inr b"
| "gt_zero rt (JNum r) = Inr (0 < r)"
| "gt_zero rt (JStr s) = Inr (string_gt_zero rt s)"
| "gt_zero rt v = gt_zero_object rt v"

section \<open>State\<close>

record video =
  id_val :: js_val
  video_url :: js_val

text \<open>
  The two module variables \<^verbatim>\<open>currentVideo\<close> and \<^verbatim>\<open>currentPrompt\<close>, and the trace of
  the fetches and sleeps performed so far, oldest first.
\<close>

record world =
  trace :: "event list"
  currentVideo :: video
  currentPrompt :: string

definition initial_world :: world where
  "initial_world =
     \<lparr>trace = [],
      currentVideo = \<lparr>id_val = JNull, video_url = JNull\<rparr>,
      currentPrompt = ''A peaceful dynamic nature background''\<rparr>"

text \<open>A request is sent: it joins the trace.\<close>

definition issue :: "request \<Rightarrow> world \<Rightarrow> world" where
  "issue req w = w\<lparr>trace := trace w @ [Fetch req]\<rparr>"

text \<open>
  \<^verbatim>\<open>await fetch(...)\<close> and \<^verbatim>\<open>await response.json()\<close>: the request is sent and the
  network's answer to it, after all that happened before, is awaited.
\<close>

definition fetch :: "runtime \<Rightarrow> request \<Rightarrow> world \<Rightarrow> (js_error + js_val) \<times> world" where
  "fetch rt req w = (network rt (trace w) req, issue req w)"

definition sleep :: "nat \<Rightarrow> world \<Rightarrow> world" where
  "sleep ms w = w\<lparr>trace := trace w @ [Sleep ms]\<rparr>"

section \<open>Helper functions of the server\<close>

text \<open>
  \<^verbatim>\<open>generatePromptForLuma\<close>. First the part of its \<^verbatim>\<open>try\<close> block that follows the
  parsing of the response: the condition \<^verbatim>\<open>data.choices && data.choices.length > 0\<close>
  and the two returns. Then the whole \<^verbatim>\<open>try\<close> block, and the function with its
  \<^verbatim>\<open>catch\<close>, which logs the error and returns the base prompt. The base prompt is
  always a string here, so the default of the parameter is never taken.
\<close>

definition prompt_of_data :: "runtime \<Rightarrow> string \<Rightarrow> js_val \<Rightarrow> js_error + string" where
  "prompt_of_data rt basePrompt data =
     (case get_prop data ''choices'' of
        Inl e \<Rightarrow> Inl e
      | Inr choices \<Rightarrow>
          if truthy choices then
            (case get_prop choices ''length'' of
               Inl e \<Rightarrow> Inl e
             | Inr len \<Rightarrow>
                 (case gt_zero rt len of
                    Inl e \<Rightarrow> Inl e
                  | Inr nonempty \<Rightarrow>
                      if nonempty then
                        (case get_elem0 choices of
                           Inl e \<Rightarrow> Inl e
                         | Inr choice \<Rightarrow>
                             (case get_prop choice ''text'' of
                                Inl e \<Rightarrow> Inl e
                              | Inr text \<Rightarrow> call_trim text))
                      else Inr basePrompt))
          else Inr basePrompt)"

definition generatePromptForLuma_try ::
    "runtime \<Rightarrow> string \<Rightarrow> world \<Rightarrow> (js_error + string) \<times> world" where
  "generatePromptForLuma_try rt basePrompt w =
     (case fetch rt (Completions (basePrompt @ '' with slight variation'')) w of
        (Inl e, w1) \<Rightarrow> (Inl e, w1)
      | (Inr data, w1) \<Rightarrow> (prompt_of_data rt basePrompt data, w1))"

definition generatePromptForLuma ::
    "runtime \<Rightarrow> string \<Rightarrow> world \<Rightarrow> (js_error + string) \<times> world" where
  "generatePromptForLuma rt basePrompt w =
     (case generatePromptForLuma_try rt basePrompt w of
        (Inl error, w1) \<Rightarrow> (Inr basePrompt, w1)
      | (Inr prompt, w1) \<Rightarrow> (Inr prompt, w1))"

text \<open>
  \<^verbatim>\<open>generateVideo\<close>, \<^verbatim>\<open>getGeneration\<close> and \<^verbatim>\<open>interpolateVideos\<close> return the parsed
  body as it is; their \<^verbatim>\<open>catch\<close> logs and throws the error again.
\<close>

definition generateVideo :: "runtime \<Rightarrow> string \<Rightarrow> world \<Rightarrow> (js_error + js_val) \<times> world" where
  "generateVideo rt prompt w =
     (case fetch rt (CreateGeneration prompt) w of
        (Inl error, w1) \<Rightarrow> (Inl error, w1)
      | (Inr data, w1) \<Rightarrow> (Inr data, w1))"

definition getGeneration :: "runtime \<Rightarrow> js_val \<Rightarrow> world \<Rightarrow> (js_error + js_val) \<times> world" where
  "getGeneration rt generationId w =
     (case to_string rt generationId of
        Inl error \<Rightarrow> (Inl error, w)
      | Inr path \<Rightarrow>
          (case fetch rt (GetGeneration path) w of
             (Inl error, w1) \<Rightarrow> (Inl error, w1)
           | (Inr data, w1) \<Rightarrow> (Inr data, w1)))"

definition interpolateVideos ::
    "runtime \<Rightarrow> js_val \<Rightarrow> js_val \<Rightarrow> string \<Rightarrow> world \<Rightarrow> (js_error + js_val) \<times> world" where
  "interpolateVideos rt videoId1 videoId2 prompt w =
     (case fetch rt (CreateInterpolation videoId1 videoId2 prompt) w of
        (Inl error, w1) \<Rightarrow> (Inl error, w1)
      | (Inr data, w1) \<Rightarrow> (Inr data, w1))"

text \<open>
  \<^verbatim>\<open>pollGeneration\<close>: the \<^verbatim>\<open>while (true)\<close> loop. \<open>None\<close> is the loop that never ends.
  The status is written into the log line by a template literal, which throws on a status
  that has no string.
\<close>

partial_function (option) pollGeneration ::
    "runtime \<Rightarrow> js_val \<Rightarrow> nat \<Rightarrow> world \<Rightarrow> ((js_error + js_val) \<times> world) option" where
  "pollGeneration rt generationId interval w =
     (case getGeneration rt generationId w of
        (Inl error, w1) \<Rightarrow> Some (Inl error, w1)
      | (Inr generation, w1) \<Rightarrow>
          (case get_prop generation ''status'' of
             Inl error \<Rightarrow> Some (Inl error, w1)
           | Inr status \<Rightarrow>
               (case to_string rt status of
                  Inl error \<Rightarrow> Some (Inl error, w1)
                | Inr logged \<Rightarrow>
                    if status = JStr ''completed'' then Some (Inr generation, w1)
                    else pollGeneration rt generationId interval (sleep interval w1))))"

section \<open>State and update logic\<close>

text \<open>
  The \<^verbatim>\<open>try\<close> block of \<^verbatim>\<open>initializeBackground\<close>. The prompt is assigned to
  \<^verbatim>\<open>currentPrompt\<close> as soon as it is generated; \<^verbatim>\<open>currentVideo\<close> is assigned last.
  The poll interval is the default, 5000 ms.
\<close>

definition initializeBackground_try :: "runtime \<Rightarrow> world \<Rightarrow> ((js_error + unit) \<times> world) option" where
  "initializeBackground_try rt w =
     (case generatePromptForLuma rt (currentPrompt w) w of
        (Inl error, w1) \<Rightarrow> Some (Inl error, w1)
      | (Inr prompt, w1) \<Rightarrow>
          (let w2 = w1\<lparr>currentPrompt := prompt\<rparr> in
           case generateVideo rt (currentPrompt w2) w2 of
             (Inl error, w3) \<Rightarrow> Some (Inl error, w3)
           | (Inr genResponse, w3) \<Rightarrow>
               (case get_prop genResponse ''id'' of
                  Inl error \<Rightarrow> Some (Inl error, w3)
                | Inr genId \<Rightarrow>
                    (case pollGeneration rt genId 5000 w3 of
                       None \<Rightarrow> None
                     | Some (Inl error, w4) \<Rightarrow> Some (Inl error, w4)
                     | Some (Inr generation, w4) \<Rightarrow>
                         (case get_prop generation ''video_url'' of
                            Inl error \<Rightarrow> Some (Inl error, w4)
                          | Inr url \<Rightarrow>
                              Some (Inr (), w4\<lparr>currentVideo := \<lparr>id_val = genId, video_url = url\<rparr>\<rparr>))))))"

text \<open>\<^verbatim>\<open>initializeBackground\<close>: the \<^verbatim>\<open>catch\<close> logs the error and the function returns.\<close>

definition initializeBackground :: "runtime \<Rightarrow> world \<Rightarrow> ((js_error + unit) \<times> world) option" where
  "initializeBackground rt w =
     (case initializeBackground_try rt w of
        None \<Rightarrow> None
      | Some (Inl error, w1) \<Rightarrow> Some (Inr (), w1)
      | Some (Inr u, w1) \<Rightarrow> Some (Inr u, w1))"

definition interpolation_prompt :: string where
  "interpolation_prompt = ''Interpolate between current background and new variation''"

text \<open>
  The \<^verbatim>\<open>try\<close> block of \<^verbatim>\<open>updateBackground\<close>. \<^verbatim>\<open>currentVideo.id\<close> is read when the
  interpolation is requested; both variables are assigned at the end.
\<close>

definition updateBackground_try :: "runtime \<Rightarrow> world \<Rightarrow> ((js_error + unit) \<times> world) option" where
  "updateBackground_try rt w =
     (case generatePromptForLuma rt (currentPrompt w) w of
        (Inl error, w1) \<Rightarrow> Some (Inl error, w1)
      | (Inr newPrompt, w1) \<Rightarrow>
          (case generateVideo rt newPrompt w1 of
             (Inl error, w2) \<Rightarrow> Some (Inl error, w2)
           | (Inr newGenResponse, w2) \<Rightarrow>
               (case get_prop newGenResponse ''id'' of
                  Inl error \<Rightarrow> Some (Inl error, w2)
                | Inr newGenId \<Rightarrow>
                    (case pollGeneration rt newGenId 5000 w2 of
                       None \<Rightarrow> None
                     | Some (Inl error, w3) \<Rightarrow> Some (Inl error, w3)
                     | Some (Inr newGeneration, w3) \<Rightarrow>
                         (case get_prop newGeneration ''video_url'' of
                            Inl error \<Rightarrow> Some (Inl error, w3)
                          | Inr newUrl \<Rightarrow>
                              (case interpolateVideos rt (id_val (currentVideo w3)) newGenId
                                      interpolation_prompt w3 of
                                 (Inl error, w4) \<Rightarrow> Some (Inl error, w4)
                               | (Inr interpResponse, w4) \<Rightarrow>
                                   (case get_prop interpResponse ''id'' of
                                      Inl error \<Rightarrow> Some (Inl error, w4)
                                    | Inr interpGenId \<Rightarrow>
                                        (case pollGeneration rt interpGenId 5000 w4 of
                                           None \<Rightarrow> None
                                         | Some (Inl error, w5) \<Rightarrow> Some (Inl error, w5)
                                         | Some (Inr interpolatedGeneration, w5) \<Rightarrow>
                                             (case get_prop interpolatedGeneration ''video_url'' of
                                                Inl error \<Rightarrow> Some (Inl error, w5)
                                              | Inr url \<Rightarrow>
                                                  Some (Inr (),
                                                    w5\<lparr>currentVideo := \<lparr>id_val = interpGenId, video_url = url\<rparr>,
                                                       currentPrompt := newPrompt\<rparr>))))))))))"

definition updateBackground :: "runtime \<Rightarrow> world \<Rightarrow> ((js_error + unit) \<times> world) option" where
  "updateBackground rt w =
     (case updateBackground_try rt w of
        None \<Rightarrow> None
      | Some (Inl error, w1) \<Rightarrow> Some (Inr (), w1)
      | Some (Inr u, w1) \<Rightarrow> Some (Inr u, w1))"

section \<open>Endpoint\<close>

text \<open>
  \<^verbatim>\<open>GET /api/current-video\<close>: status 200 with the URL when \<^verbatim>\<open>currentVideo.video_url\<close>
  is truthy, status 503 otherwise.
\<close>

datatype reply = Json200 js_val | NotReady503

definition current :: "world \<Rightarrow> reply" where
  "current w =
     (if truthy (video_url (currentVideo w)) then Json200 (video_url (currentVideo w))
      else NotReady503)"

section \<open>The event loop\<close>

text \<open>
  An activation of \<^verbatim>\<open>initializeBackground\<close> or \<^verbatim>\<open>updateBackground\<close> that is suspended
  at an \<^verbatim>\<open>await\<close>, with the local variables it still needs; \<open>Finished\<close> once it has
  returned. The two awaits of one exchange (\<^verbatim>\<open>fetch\<close>, then \<^verbatim>\<open>response.json()\<close>) are
  one suspension: the program reads and writes nothing between them.
\<close>

datatype task =
    Init_prompt string
  | Init_video
  | Init_poll js_val
  | Init_sleep js_val
  | Upd_prompt string
  | Upd_video string
  | Upd_poll string js_val
  | Upd_sleep string js_val
  | Upd_interp string
  | Upd_interp_poll string js_val
  | Upd_interp_sleep string js_val
  | Finished

text \<open>
  What the event loop runs next: the interval timer fires, the exchange a task awaits
  settles with a rejection or a parsed body, or the sleep of a task is over.
\<close>

datatype loop_event = Tick | Settled nat "js_error + js_val" | Woken nat

record server =
  globals :: world
  tasks :: "task list"

text \<open>The value of \<^verbatim>\<open>await generatePromptForLuma(basePrompt)\<close> once its exchange has settled.\<close>

definition prompt_result :: "runtime \<Rightarrow> string \<Rightarrow> js_error + js_val \<Rightarrow> string" where
  "prompt_result rt basePrompt r =
     (case (case r of Inl e \<Rightarrow> Inl e | Inr data \<Rightarrow> prompt_of_data rt basePrompt data) of
        Inl error \<Rightarrow> basePrompt
      | Inr prompt \<Rightarrow> prompt)"

text \<open>
  One turn of the loop of \<^verbatim>\<open>pollGeneration\<close> up to its await: \<^verbatim>\<open>getGeneration\<close> builds
  the URL, which may throw, and sends the request.
\<close>

definition poll_fetch :: "runtime \<Rightarrow> js_val \<Rightarrow> world \<Rightarrow> (js_error + unit) \<times> world" where
  "poll_fetch rt generationId w =
     (case to_string rt generationId of
        Inl error \<Rightarrow> (Inl error, w)
      | Inr path \<Rightarrow> (Inr (), issue (GetGeneration path) w))"

text \<open>
  A task goes on when the exchange it awaits has settled with \<open>r\<close>, up to its next
  await. A throw ends the task: the \<^verbatim>\<open>catch\<close> of its function logs and returns.
\<close>

fun settled :: "runtime \<Rightarrow> task \<Rightarrow> js_error + js_val \<Rightarrow> world \<Rightarrow> task \<times> world" where
  "settled rt (Init_prompt basePrompt) r w =
     (let w1 = w\<lparr>currentPrompt := prompt_result rt basePrompt r\<rparr>
      in (Init_video, issue (CreateGeneration (currentPrompt w1)) w1))"
| "settled rt Init_video r w =
     (case r of
        Inl error \<Rightarrow> (Finished, w)
      | Inr genResponse \<Rightarrow>
          (case get_prop genResponse ''id'' of
             Inl error \<Rightarrow> (Finished, w)
           | Inr genId \<Rightarrow>
               (case poll_fetch rt genId w of
                  (Inl error, w1) \<Rightarrow> (Finished, w1)
                | (Inr u, w1) \<Rightarrow> (Init_poll genId, w1))))"
| "settled rt (Init_poll genId) r w =
     (case r of
        Inl error \<Rightarrow> (Finished, w)
      | Inr generation \<Rightarrow>
          (case get_prop generation ''status'' of
             Inl error \<Rightarrow> (Finished, w)
           | Inr status \<Rightarrow>
               (case to_string rt status of
                  Inl error \<Rightarrow> (Finished, w)
                | Inr logged \<Rightarrow>
                    if status = JStr ''completed'' then
                      (case get_prop generation ''video_url'' of
                         Inl error \<Rightarrow> (Finished, w)
                       | Inr url \<Rightarrow> (Finished, w\<lparr>currentVideo := \<lparr>id_val = genId, video_url = url\<rparr>\<rparr>))
                    else (Init_sleep genId, sleep 5000 w))))"
| "settled rt (Upd_prompt basePrompt) r w =
     (let newPrompt = prompt_result rt basePrompt r
      in (Upd_video newPrompt, issue (CreateGeneration newPrompt) w))"
| "settled rt (Upd_video newPrompt) r w =
     (case r of
        Inl error \<Rightarrow> (Finished, w)
      | Inr newGenResponse \<Rightarrow>
          (case get_prop newGenResponse ''id'' of
             Inl error \<Rightarrow> (Finished, w)
           | Inr newGenId \<Rightarrow>
               (case poll_fetch rt newGenId w of
                  (Inl error, w1) \<Rightarrow> (Finished, w1)
                | (Inr u, w1) \<Rightarrow> (Upd_poll newPrompt newGenId, w1))))"
| "settled rt (Upd_poll newPrompt newGenId) r w =
     (case r of
        Inl error \<Rightarrow> (Finished, w)
      | Inr newGeneration \<Rightarrow>
          (case get_prop newGeneration ''status'' of
             Inl error \<Rightarrow> (Finished, w)
           | Inr status \<Rightarrow>
               (case to_string rt status of
                  Inl error \<Rightarrow> (Finished, w)
                | Inr logged \<Rightarrow>
                    if status = JStr ''completed'' then
                      (case get_prop newGeneration ''video_url'' of
                         Inl error \<Rightarrow> (Finished, w)
                       | Inr newUrl \<Rightarrow>
                           (Upd_interp newPrompt,
                            issue (CreateInterpolation (id_val (currentVideo w)) newGenId
                                     interpolation_prompt) w))
                    else (Upd_sleep newPrompt newGenId, sleep 5000 w))))"
| "settled rt (Upd_interp newPrompt) r w =
     (case r of
        Inl error \<Rightarrow> (Finished, w)
      | Inr interpResponse \<Rightarrow>
          (case get_prop interpResponse ''id'' of
             Inl error \<Rightarrow> (Finished, w)
           | Inr interpGenId \<Rightarrow>
               (case poll_fetch rt interpGenId w of
                  (Inl error, w1) \<Rightarrow> (Finished, w1)
                | (Inr u, w1) \<Rightarrow> (Upd_interp_poll newPrompt interpGenId, w1))))"
| "settled rt (Upd_interp_poll newPrompt interpGenId) r w =
     (case r of
        Inl error \<Rightarrow> (Finished, w)
      | Inr interpolatedGeneration \<Rightarrow>
          (case get_prop interpolatedGeneration ''status'' of
             Inl error \<Rightarrow> (Finished, w)
           | Inr status \<Rightarrow>
               (case to_string rt status of
                  Inl error \<Rightarrow> (Finished, w)
                | Inr logged \<Rightarrow>
                    if status = JStr ''completed'' then
                      (case get_prop interpolatedGeneration ''video_url'' of
                         Inl error \<Rightarrow> (Finished, w)
                       | Inr url \<Rightarrow>
                           (Finished,
                            w\<lparr>currentVideo := \<lparr>id_val = interpGenId, video_url = url\<rparr>,
                              currentPrompt := newPrompt\<rparr>))
                    else (Upd_interp_sleep newPrompt interpGenId, sleep 5000 w))))"
| "settled rt t r w = (t, w)"

text \<open>A sleeping task goes on when its timer fires: the next turn of the polling loop.\<close>

fun woken :: "runtime \<Rightarrow> task \<Rightarrow> world \<Rightarrow> task \<times> world" where
  "woken rt (Init_sleep genId) w =
     (case poll_fetch rt genId w of
        (Inl error, w1) \<Rightarrow> (Finished, w1)
      | (Inr u, w1) \<Rightarrow> (Init_poll genId, w1))"
| "woken rt (Upd_sleep newPrompt newGenId) w =
     (case poll_fetch rt newGenId w of
        (Inl error, w1) \<Rightarrow> (Finished, w1)
      | (Inr u, w1) \<Rightarrow> (Upd_poll newPrompt newGenId, w1))"
| "woken rt (Upd_interp_sleep newPrompt interpGenId) w =
     (case poll_fetch rt interpGenId w of
        (Inl error, w1) \<Rightarrow> (Finished, w1)
      | (Inr u, w1) \<Rightarrow> (Upd_interp_poll newPrompt interpGenId, w1))"
| "woken rt t w = (t, w)"

text \<open>
  The module's top level: \<^verbatim>\<open>initializeBackground()\<close> is called and not awaited, so it
  runs up to its first await; then the interval timer is set.
\<close>

definition boot :: server where
  "boot =
     \<lparr>globals = issue (Completions (currentPrompt initial_world @ '' with slight variation''))
                  initial_world,
      tasks = [Init_prompt (currentPrompt initial_world)]\<rparr>"

text \<open>
  \<^verbatim>\<open>setInterval(updateBackground, 20000)\<close>: at each tick \<^verbatim>\<open>updateBackground()\<close> is
  called, whatever is in flight, and runs up to its first await.
\<close>

definition tick :: "server \<Rightarrow> server" where
  "tick s =
     \<lparr>globals = issue (Completions (currentPrompt (globals s) @ '' with slight variation''))
                  (globals s),
      tasks = tasks s @ [Upd_prompt (currentPrompt (globals s))]\<rparr>"

definition step :: "runtime \<Rightarrow> loop_event \<Rightarrow> server \<Rightarrow> server" where
  "step rt ev s =
     (case ev of
        Tick \<Rightarrow> tick s
      | Settled i r \<Rightarrow>
          if i < length (tasks s) then
            (case settled rt (tasks s ! i) r (globals s) of
               (t, w) \<Rightarrow> \<lparr>globals = w, tasks = (tasks s)[i := t]\<rparr>)
          else s
      | Woken i \<Rightarrow>
          if i < length (tasks s) then
            (case woken rt (tasks s ! i) (globals s) of
               (t, w) \<Rightarrow> \<lparr>globals = w, tasks = (tasks s)[i := t]\<rparr>)
          else s)"

fun run :: "runtime \<Rightarrow> loop_event list \<Rightarrow> server \<Rightarrow> server" where
  "run rt [] s = s"
| "run rt (ev # evs) s = run rt evs (step rt ev s)"

fun is_update :: "task \<Rightarrow> bool" where
  "is_update (Upd_prompt basePrompt) = True"
| "is_update (Upd_video newPrompt) = True"
| "is_update (Upd_poll newPrompt newGenId) = True"
| "is_update (Upd_sleep newPrompt newGenId) = True"
| "is_update (Upd_interp newPrompt) = True"
| "is_update (Upd_interp_poll newPrompt interpGenId) = True"
| "is_update (Upd_interp_sleep newPrompt interpGenId) = True"
| "is_update t = False"

definition cycles_in_flight :: "server \<Rightarrow> nat" where
  "cycles_in_flight s = length (filter is_update (tasks s))"

fun ticks_of :: "loop_event list \<Rightarrow> nat" where
  "ticks_of [] = 0"
| "ticks_of (Tick # evs) = Suc (ticks_of evs)"
| "ticks_of (ev # evs) = ticks_of evs"

subsection \<open>An activation that runs alone\<close>

text \<open>
  An activation that runs alone: the only task of the server, with no tick in between. What
  it waits for is the last event of the trace, the request it sent or the sleep it started;
  the network answers the request as it does when the function is read sequentially, from
  the trace before the request. \<open>run_alone rt n\<close> are the first \<open>n\<close> turns of the event
  loop, fewer when the task has finished.
\<close>

definition answer :: "runtime \<Rightarrow> server \<Rightarrow> loop_event" where
  "answer rt s =
     (case rev (trace (globals s)) of
        [] \<Rightarrow> Woken 0
      | Fetch req # before \<Rightarrow> Settled 0 (network rt (rev before) req)
      | Sleep ms # before \<Rightarrow> Woken 0)"

fun run_alone :: "runtime \<Rightarrow> nat \<Rightarrow> server \<Rightarrow> server" where
  "run_alone rt 0 s = s"
| "run_alone rt (Suc n) s =
     (if tasks s = [Finished] then s else run_alone rt n (step rt (answer rt s) s))"

section \<open>Observations on runs\<close>

text \<open>
  The events of \<open>k\<close> attempts of \<^verbatim>\<open>pollGeneration\<close> that did not end the loop: a status
  fetch followed by a sleep, \<open>k\<close> times.
\<close>

fun attempts :: "request \<Rightarrow> nat \<Rightarrow> nat \<Rightarrow> event list" where
  "attempts req interval 0 = []"
| "attempts req interval (Suc k) = Fetch req # Sleep interval # attempts req interval k"

text \<open>The events of a poll that ends at its \<open>n\<close>-th status fetch, \<open>n\<close> counted from 1.\<close>

definition poll_events :: "request \<Rightarrow> nat \<Rightarrow> nat \<Rightarrow> event list" where
  "poll_events req interval n = attempts req interval (n - 1) @ [Fetch req]"

text \<open>
  What the network answers to the status fetch number \<open>k\<close> (counted from 0) of a poll
  that starts in world \<open>w\<close>, all earlier fetches having been followed by a sleep.
\<close>

definition poll_response :: "runtime \<Rightarrow> string \<Rightarrow> nat \<Rightarrow> world \<Rightarrow> nat \<Rightarrow> js_error + js_val" where
  "poll_response rt path interval w k =
     network rt (trace w @ attempts (GetGeneration path) interval k) (GetGeneration path)"

text \<open>A status fetch that ends the loop: the body's \<^verbatim>\<open>status\<close> is the string "completed".\<close>

definition is_completed :: "js_error + js_val \<Rightarrow> bool" where
  "is_completed r =
     (case r of Inl e \<Rightarrow> False | Inr g \<Rightarrow> get_prop g ''status'' = Inr (JStr ''completed''))"

text \<open>
  A status fetch after which the loop sleeps and goes on: it did not reject, its body is
  not null, and the body's \<^verbatim>\<open>status\<close> has a string and is anything but "completed" (also
  absent).
\<close>

definition is_pending :: "runtime \<Rightarrow> js_error + js_val \<Rightarrow> bool" where
  "is_pending rt r =
     (case r of
        Inl e \<Rightarrow> False
      | Inr g \<Rightarrow>
          (case get_prop g ''status'' of
             Inl e \<Rightarrow> False
           | Inr status \<Rightarrow>
               (case to_string rt status of
                  Inl e \<Rightarrow> False
                | Inr logged \<Rightarrow> status \<noteq> JStr ''completed'')))"

fun fetches_of :: "event list \<Rightarrow> request list" where
  "fetches_of [] = []"
| "fetches_of (Fetch req # evs) = req # fetches_of evs"
| "fetches_of (Sleep ms # evs) = fetches_of evs"

fun sleeps_of :: "event list \<Rightarrow> nat list" where
  "sleeps_of [] = []"
| "sleeps_of (Fetch req # evs) = sleeps_of evs"
| "sleeps_of (Sleep ms # evs) = ms # sleeps_of evs"

text \<open>The pairs of keyframe ids of the interpolation requests in a trace.\<close>

fun keyframes_of :: "event list \<Rightarrow> (js_val \<times> js_val) list" where
  "keyframes_of [] = []"
| "keyframes_of (Fetch (CreateInterpolation videoId1 videoId2 prompt) # evs) =
     (videoId1, videoId2) # keyframes_of evs"
| "keyframes_of (ev # evs) = keyframes_of evs"

fun is_create_generation :: "request \<Rightarrow> bool" where
  "is_create_generation (CreateGeneration prompt) = True"
| "is_create_generation req = False"

text \<open>What is left of the \<^verbatim>\<open>try\<close> block of \<^verbatim>\<open>updateBackground\<close> once the new job is completed.\<close>

definition update_tail ::
    "runtime \<Rightarrow> string \<Rightarrow> js_val \<Rightarrow> js_val \<Rightarrow> world \<Rightarrow> ((js_error + unit) \<times> world) option" where
  "update_tail rt newPrompt newGenId newGeneration w3 =
     (case get_prop newGeneration ''video_url'' of
        Inl error \<Rightarrow> Some (Inl error, w3)
      | Inr newUrl \<Rightarrow>
          (case interpolateVideos rt (id_val (currentVideo w3)) newGenId
                  interpolation_prompt w3 of
             (Inl error, w4) \<Rightarrow> Some (Inl error, w4)
           | (Inr interpResponse, w4) \<Rightarrow>
               (case get_prop interpResponse ''id'' of
                  Inl error \<Rightarrow> Some (Inl error, w4)
                | Inr interpGenId \<Rightarrow>
                    (case pollGeneration rt interpGenId 5000 w4 of
                       None \<Rightarrow> None
                     | Some (Inl error, w5) \<Rightarrow> Some (Inl error, w5)
                     | Some (Inr interpolatedGeneration, w5) \<Rightarrow>
                         (case get_prop interpolatedGeneration ''video_url'' of
                            Inl error \<Rightarrow> Some (Inl error, w5)
                          | Inr url \<Rightarrow>
                              Some (Inr (),
                                w5\<lparr>currentVideo := \<lparr>id_val = interpGenId, video_url = url\<rparr>,
                                   currentPrompt := newPrompt\<rparr>))))))"

section \<open>Scenarios\<close>

text \<open>
  Runtimes for concrete runs. In none of them is a coercion applied to a number, a string,
  an array or an object that the network produced, so the coercions are never asked.
\<close>

definition scripted :: "(event list \<Rightarrow> request \<Rightarrow> js_error + js_val) \<Rightarrow> runtime" where
  "scripted net =
     \<lparr>network = net,
      number_to_string = (\<lambda>r. ''0''),
      string_gt_zero = (\<lambda>s. False),
      to_string_object = (\<lambda>v. Inl TypeError),
      gt_zero_object = (\<lambda>v. Inl TypeError)\<rparr>"

definition job_record :: "string \<Rightarrow> string \<Rightarrow> js_val" where
  "job_record status url = JObj [(''status'', JStr status), (''video_url'', JStr url)]"

text \<open>A job that reports "processing" twice, then "completed".\<close>

definition rt_processing_twice :: runtime where
  "rt_processing_twice =
     scripted (\<lambda>tr req. if length (fetches_of tr) < 2 then Inr (JObj [(''status'', JStr ''processing'')])
                         else Inr (job_record ''completed'' ''http://x/a.mp4''))"

definition rt_completed :: runtime where
  "rt_completed = scripted (\<lambda>tr req. Inr (job_record ''completed'' ''http://x/a.mp4''))"

text \<open>A job that has settled into the status "failed".\<close>

definition rt_failed :: runtime where
  "rt_failed = scripted (\<lambda>tr req. Inr (JObj [(''status'', JStr ''failed'')]))"

text \<open>Every request is rejected.\<close>

definition rt_offline :: runtime where
  "rt_offline = scripted (\<lambda>tr req. Inl FetchError)"

text \<open>Every request is answered by an error body, which has none of the expected fields.\<close>

definition rt_error_body :: runtime where
  "rt_error_body = scripted (\<lambda>tr req. Inr (JObj [(''detail'', JStr ''unauthorized'')]))"

definition rt_no_choices :: runtime where
  "rt_no_choices = scripted (\<lambda>tr req. Inr (JObj [(''choices'', JArr [])]))"

text \<open>The prompt service answers, the video service is unreachable.\<close>

definition rt_prompt_only :: runtime where
  "rt_prompt_only =
     scripted (\<lambda>tr req.
       case req of
         Completions prompt \<Rightarrow> Inr (JObj [(''choices'', JArr [JObj [(''text'', JStr ''Misty forest at dawn'')]])])
       | CreateGeneration prompt \<Rightarrow> Inl FetchError
       | CreateInterpolation videoId1 videoId2 prompt \<Rightarrow> Inl FetchError
       | GetGeneration path \<Rightarrow> Inl FetchError)"

text \<open>
  The end-to-end scenario: the prompt service echoes the prompt it is sent; the first
  generation is job "A", the next one job "B", an interpolation is job "C"; each job is
  completed at its first status check.
\<close>

definition e2e_network :: "event list \<Rightarrow> request \<Rightarrow> js_error + js_val" where
  "e2e_network tr req =
     (case req of
        Completions prompt \<Rightarrow> Inr (JObj [(''choices'', JArr [JObj [(''text'', JStr prompt)]])])
      | CreateGeneration prompt \<Rightarrow>
          Inr (JObj [(''id'', JStr (if list_ex is_create_generation (fetches_of tr) then ''B'' else ''A''))])
      | CreateInterpolation videoId1 videoId2 prompt \<Rightarrow> Inr (JObj [(''id'', JStr ''C'')])
      | GetGeneration path \<Rightarrow>
          Inr (job_record ''completed''
                 (if path = ''A'' then ''http://x/a.mp4''
                  else if path = ''B'' then ''http://x/b.mp4'' else ''http://x/c.mp4'')))"

definition e2e_runtime :: runtime where
  "e2e_runtime = scripted e2e_network"

text \<open>As the end-to-end scenario, but only the first generation request is accepted.\<close>

definition rt_one_video :: runtime where
  "rt_one_video =
     scripted (\<lambda>tr req.
       case req of
         CreateGeneration prompt \<Rightarrow>
           if list_ex is_create_generation (fetches_of tr) then Inl FetchError
           else Inr (JObj [(''id'', JStr ''A'')])
       | Completions prompt \<Rightarrow> e2e_network tr req
       | CreateInterpolation videoId1 videoId2 prompt \<Rightarrow> e2e_network tr req
       | GetGeneration path \<Rightarrow> e2e_network tr req)"

text \<open>The world after \<^verbatim>\<open>initializeBackground\<close> has succeeded with job "A".\<close>

definition one_video_world :: world where
  "one_video_world =
     \<lparr>trace = [Fetch (Completions ''A peaceful dynamic nature background with slight variation''),
               Fetch (CreateGeneration ''A peaceful dynamic nature background with slight variation''),
               Fetch (GetGeneration ''A'')],
      currentVideo = \<lparr>id_val = JStr ''A'', video_url = JStr ''http://x/a.mp4''\<rparr>,
      currentPrompt = ''A peaceful dynamic nature background with slight variation''\<rparr>"

text \<open>
  A schedule in which a refresh cycle is slower than the timer: initialization completes
  with job "A"; the timer fires and a cycle starts; its job "B" is still "processing" at
  four status checks, each followed by a sleep of 5000 ms; during the fourth sleep, 20000 ms
  after the first tick, the timer fires again.
\<close>

definition echo_body :: "string \<Rightarrow> js_error + js_val" where
  "echo_body prompt = Inr (JObj [(''choices'', JArr [JObj [(''text'', JStr prompt)]])])"

definition processing :: "js_error + js_val" where
  "processing = Inr (JObj [(''status'', JStr ''processing'')])"

definition slow_cycle_schedule :: "loop_event list" where
  "slow_cycle_schedule =
     [Settled 0 (echo_body ''Ocean waves at sunset''),
      Settled 0 (Inr (JObj [(''id'', JStr ''A'')])),
      Settled 0 (Inr (job_record ''completed'' ''http://x/a.mp4'')),
      Tick,
      Settled 1 (echo_body ''Ocean waves at dawn''),
      Settled 1 (Inr (JObj [(''id'', JStr ''B'')])),
      Settled 1 processing, Woken 1,
      Settled 1 processing, Woken 1,
      Settled 1 processing, Woken 1,
      Settled 1 processing,
      Tick]"

section \<open>Lemmas\<close>

subsection \<open>The helper functions\<close>

lemma fetch_simps:
  "fst (fetch rt req w) = network rt (trace w) req"
  "snd (fetch rt req w) = w\<lparr>trace := trace w @ [Fetch req]\<rparr>"
  by (simp_all add: fetch_def issue_def)

lemma getGeneration_eq:
  "to_string rt generationId = Inr path \<Longrightarrow>
   getGeneration rt generationId w =
     (network rt (trace w) (GetGeneration path), w\<lparr>trace := trace w @ [Fetch (GetGeneration path)]\<rparr>)"
  by (simp add: getGeneration_def fetch_def issue_def split: sum.splits)

lemma getGeneration_throw:
  "to_string rt generationId = Inl e \<Longrightarrow> getGeneration rt generationId w = (Inl e, w)"
  by (simp add: getGeneration_def)

lemma generatePromptForLuma_snd:
  "snd (generatePromptForLuma rt basePrompt w) =
     w\<lparr>trace := trace w @ [Fetch (Completions (basePrompt @ '' with slight variation''))]\<rparr>"
  by (simp add: generatePromptForLuma_def generatePromptForLuma_try_def fetch_def issue_def split: sum.splits)

lemma generatePromptForLuma_fst:
  "fst (generatePromptForLuma rt basePrompt w) =
     (case network rt (trace w) (Completions (basePrompt @ '' with slight variation'')) of
        Inl e \<Rightarrow> Inr basePrompt
      | Inr data \<Rightarrow> (case prompt_of_data rt basePrompt data of
                      Inl e \<Rightarrow> Inr basePrompt | Inr prompt \<Rightarrow> Inr prompt))"
  by (simp add: generatePromptForLuma_def generatePromptForLuma_try_def fetch_def issue_def split: sum.splits)

lemma prompt_of_data_cases:
  "prompt_of_data rt basePrompt data = Inr prompt \<Longrightarrow>
   prompt = basePrompt \<or>
   (\<exists>choices len choice text.
      get_prop data ''choices'' = Inr choices \<and> truthy choices \<and>
      get_prop choices ''length'' = Inr len \<and> gt_zero rt len = Inr True \<and>
      get_elem0 choices = Inr choice \<and> get_prop choice ''text'' = Inr (JStr text) \<and>
      prompt = trim text)"
  unfolding prompt_of_data_def
  by (cases "get_prop data ''choices''"; cases "get_prop (projr (get_prop data ''choices'')) ''length''";
      cases "gt_zero rt (projr (get_prop (projr (get_prop data ''choices'')) ''length''))";
      cases "get_elem0 (projr (get_prop data ''choices''))";
      cases "get_prop (projr (get_elem0 (projr (get_prop data ''choices'')))) ''text''")
     (auto split: if_splits elim: call_trim.elims)

lemma generatePromptForLuma_eq:
  "generatePromptForLuma rt basePrompt w =
     (case network rt (trace w) (Completions (basePrompt @ '' with slight variation'')) of
        Inl e \<Rightarrow> Inr basePrompt
      | Inr data \<Rightarrow> (case prompt_of_data rt basePrompt data of
                      Inl e \<Rightarrow> Inr basePrompt | Inr prompt \<Rightarrow> Inr prompt),
      w\<lparr>trace := trace w @ [Fetch (Completions (basePrompt @ '' with slight variation''))]\<rparr>)"
  by (simp add: generatePromptForLuma_def generatePromptForLuma_try_def fetch_def issue_def split: sum.splits)

lemma generatePromptForLuma_Inr:
  "generatePromptForLuma rt basePrompt w = (r, w1) \<Longrightarrow>
   (\<exists>prompt. r = Inr prompt) \<and>
   w1 = w\<lparr>trace := trace w @ [Fetch (Completions (basePrompt @ '' with slight variation''))]\<rparr>"
proof -
  assume a: "generatePromptForLuma rt basePrompt w = (r, w1)"
  have "\<exists>prompt. fst (generatePromptForLuma rt basePrompt w) = Inr prompt"
    by (simp add: generatePromptForLuma_fst split: sum.splits)
  moreover from a have "r = fst (generatePromptForLuma rt basePrompt w)"
    and "w1 = snd (generatePromptForLuma rt basePrompt w)" by simp_all
  ultimately show ?thesis by (simp add: generatePromptForLuma_snd)
qed

lemma prompt_result_eq:
  "generatePromptForLuma rt basePrompt w =
     (Inr (prompt_result rt basePrompt
             (network rt (trace w) (Completions (basePrompt @ '' with slight variation'')))),
      issue (Completions (basePrompt @ '' with slight variation'')) w)"
  by (simp add: generatePromptForLuma_eq prompt_result_def issue_def split: sum.splits)

lemma generateVideo_eq:
  "generateVideo rt prompt w =
     (network rt (trace w) (CreateGeneration prompt),
      w\<lparr>trace := trace w @ [Fetch (CreateGeneration prompt)]\<rparr>)"
  by (simp add: generateVideo_def fetch_def issue_def split: sum.splits)

lemma generateVideo_issue:
  "generateVideo rt prompt w =
     (network rt (trace w) (CreateGeneration prompt), issue (CreateGeneration prompt) w)"
  by (simp add: generateVideo_def fetch_def split: sum.splits)

lemma interpolateVideos_eq:
  "interpolateVideos rt videoId1 videoId2 prompt w =
     (network rt (trace w) (CreateInterpolation videoId1 videoId2 prompt),
      w\<lparr>trace := trace w @ [Fetch (CreateInterpolation videoId1 videoId2 prompt)]\<rparr>)"
  by (simp add: interpolateVideos_def fetch_def issue_def split: sum.splits)

lemma trim_id:
  assumes "s \<noteq> []" and "\<not> is_space (hd s)" and "\<not> is_space (last s)"
  shows "trim s = s"
proof -
  from assms(1,2) have a: "dropWhile is_space s = s" by (cases s) simp_all
  from assms(1,3) have "dropWhile is_space (rev s) = rev s" by (cases s rule: rev_cases) simp_all
  with a show ?thesis by (simp add: trim_def)
qed

lemma get_prop_defined:
  "get_prop v k = Inr u \<Longrightarrow> \<exists>u'. get_prop v k' = Inr u'"
  by (cases v) simp_all

subsection \<open>The polling loop\<close>

lemma poll_unfold_pending:
  assumes "to_string rt generationId = Inr path"
    and "is_pending rt (network rt (trace w) (GetGeneration path))"
  shows "pollGeneration rt generationId interval w =
         pollGeneration rt generationId interval
           (w\<lparr>trace := trace w @ [Fetch (GetGeneration path), Sleep interval]\<rparr>)"
  using assms
  by (subst pollGeneration.simps)
     (auto simp: getGeneration_eq is_pending_def sleep_def split: sum.splits)

lemma poll_unfold_completed:
  assumes "to_string rt generationId = Inr path"
    and "network rt (trace w) (GetGeneration path) = Inr generation"
    and "get_prop generation ''status'' = Inr (JStr ''completed'')"
  shows "pollGeneration rt generationId interval w =
         Some (Inr generation, w\<lparr>trace := trace w @ [Fetch (GetGeneration path)]\<rparr>)"
  using assms
  by (subst pollGeneration.simps) (simp add: getGeneration_eq)

lemma poll_unfold_error:
  assumes "to_string rt generationId = Inr path"
    and "network rt (trace w) (GetGeneration path) = Inl e"
  shows "pollGeneration rt generationId interval w =
         Some (Inl e, w\<lparr>trace := trace w @ [Fetch (GetGeneration path)]\<rparr>)"
  using assms
  by (subst pollGeneration.simps) (simp add: getGeneration_eq)

lemma poll_throw:
  "to_string rt g = Inl e \<Longrightarrow> pollGeneration rt g interval w = Some (Inl e, w)"
  by (subst pollGeneration.simps) (simp add: getGeneration_throw)

lemma poll_skip_attempts:
  assumes "to_string rt generationId = Inr path"
    and "\<forall>j<k. is_pending rt (poll_response rt path interval w j)"
  shows "pollGeneration rt generationId interval w =
         pollGeneration rt generationId interval
           (w\<lparr>trace := trace w @ attempts (GetGeneration path) interval k\<rparr>)"
  using assms(2)
proof (induction k arbitrary: w)
  case 0
  then show ?case by simp
next
  case (Suc k)
  let ?req = "GetGeneration path"
  let ?w1 = "w\<lparr>trace := trace w @ [Fetch ?req, Sleep interval]\<rparr>"
  from Suc.prems have p0: "is_pending rt (network rt (trace w) ?req)"
    by (auto simp: poll_response_def dest: spec[where x=0])
  have shift: "\<forall>j<k. is_pending rt (poll_response rt path interval ?w1 j)"
  proof (intro allI impI)
    fix j assume "j < k"
    then have "is_pending rt (poll_response rt path interval w (Suc j))"
      using Suc.prems by simp
    then show "is_pending rt (poll_response rt path interval ?w1 j)"
      by (simp add: poll_response_def)
  qed
  have "pollGeneration rt generationId interval w = pollGeneration rt generationId interval ?w1"
    by (rule poll_unfold_pending[OF assms(1) p0])
  also have "\<dots> = pollGeneration rt generationId interval
                     (?w1\<lparr>trace := trace ?w1 @ attempts ?req interval k\<rparr>)"
    by (rule Suc.IH[OF shift])
  finally show ?case by simp
qed

lemma poll_never_completed:
  assumes "to_string rt generationId = Inr path"
    and "\<forall>k. is_pending rt (poll_response rt path interval w k)"
  shows "pollGeneration rt generationId interval w = None"
proof (rule ccontr)
  assume "pollGeneration rt generationId interval w \<noteq> None"
  then obtain y where y: "pollGeneration rt generationId interval w = Some y" by auto
  let ?P = "\<lambda>rt generationId interval w (r :: (js_error + js_val) \<times> world).
              to_string rt generationId = Inr path \<longrightarrow>
              (\<forall>k. is_pending rt (poll_response rt path interval w k)) \<longrightarrow> False"
  have "?P rt generationId interval w y"
  proof (rule pollGeneration.raw_induct[where P = ?P, OF _ y], intro impI)
    fix poll rt generationId interval w r
    assume IH: "\<And>rt generationId interval w r.
                  poll rt generationId interval w = Some r \<Longrightarrow> ?P rt generationId interval w r"
      and body: "(case getGeneration rt generationId w of
                    (Inl error, w1) \<Rightarrow> Some (Inl error, w1)
                  | (Inr generation, w1) \<Rightarrow>
                      (case get_prop generation ''status'' of
                         Inl error \<Rightarrow> Some (Inl error, w1)
                       | Inr status \<Rightarrow>
                           (case to_string rt status of
                              Inl error \<Rightarrow> Some (Inl error, w1)
                            | Inr logged \<Rightarrow>
                                if status = JStr ''completed'' then Some (Inr generation, w1)
                                else poll rt generationId interval (sleep interval w1)))) = Some r"
      and ts: "to_string rt generationId = Inr path"
      and pend: "\<forall>k. is_pending rt (poll_response rt path interval w k)"
    let ?req = "GetGeneration path"
    let ?w1 = "w\<lparr>trace := trace w @ [Fetch ?req, Sleep interval]\<rparr>"
    from pend have p0: "is_pending rt (network rt (trace w) ?req)"
      by (auto simp: poll_response_def dest: spec[where x=0])
    have shift: "\<forall>k. is_pending rt (poll_response rt path interval ?w1 k)"
    proof
      fix k
      from pend have "is_pending rt (poll_response rt path interval w (Suc k))" by blast
      then show "is_pending rt (poll_response rt path interval ?w1 k)"
        by (simp add: poll_response_def)
    qed
    from body ts p0 have "poll rt generationId interval ?w1 = Some r"
      by (auto simp: getGeneration_eq is_pending_def sleep_def split: sum.splits if_splits)
    from IH[OF this] ts shift show False by blast
  qed
  with assms show False by simp
qed

lemma poll_result:
  assumes ts: "to_string rt generationId = Inr path"
    and pend: "\<forall>k<n. is_pending rt (poll_response rt path interval w k)"
    and stop: "\<not> is_pending rt (poll_response rt path interval w n)"
  shows "pollGeneration rt generationId interval w =
         Some (case poll_response rt path interval w n of
                 Inl e \<Rightarrow> Inl e
               | Inr g \<Rightarrow> (case get_prop g ''status'' of
                           Inl e \<Rightarrow> Inl e
                         | Inr status \<Rightarrow>
                             (case to_string rt status of Inl e \<Rightarrow> Inl e | Inr logged \<Rightarrow> Inr g)),
               w\<lparr>trace := trace w @ attempts (GetGeneration path) interval n @ [Fetch (GetGeneration path)]\<rparr>)"
proof -
  let ?req = "GetGeneration path"
  let ?wn = "w\<lparr>trace := trace w @ attempts ?req interval n\<rparr>"
  have resp: "network rt (trace ?wn) ?req = poll_response rt path interval w n"
    by (simp add: poll_response_def)
  have "pollGeneration rt generationId interval w = pollGeneration rt generationId interval ?wn"
    by (rule poll_skip_attempts[OF ts pend])
  also have "\<dots> =
     Some (case poll_response rt path interval w n of
             Inl e \<Rightarrow> Inl e
           | Inr g \<Rightarrow> (case get_prop g ''status'' of
                           Inl e \<Rightarrow> Inl e
                         | Inr status \<Rightarrow>
                             (case to_string rt status of Inl e \<Rightarrow> Inl e | Inr logged \<Rightarrow> Inr g)),
           ?wn\<lparr>trace := trace ?wn @ [Fetch ?req]\<rparr>)"
    using stop resp
    by (subst pollGeneration.simps)
       (auto simp: getGeneration_eq[OF ts] is_pending_def split: sum.splits)
  finally show ?thesis by simp
qed

lemma pending_or_stops:
  fixes f :: "nat \<Rightarrow> js_error + js_val"
  shows "(\<forall>k. is_pending rt (f k)) \<or> (\<exists>n. \<not> is_pending rt (f n) \<and> (\<forall>k<n. is_pending rt (f k)))"
  using exists_least_iff[of "\<lambda>n. \<not> is_pending rt (f n)"] by blast

lemma is_completed_not_pending: "is_completed r \<Longrightarrow> \<not> is_pending rt r"
  by (auto simp: is_completed_def is_pending_def split: sum.splits)

lemma not_pending_cases:
  assumes "\<not> is_pending rt r"
  obtains e where "r = Inl e"
  | generation e where "r = Inr generation" "get_prop generation ''status'' = Inl e"
  | generation status e where "r = Inr generation" "get_prop generation ''status'' = Inr status"
      "to_string rt status = Inl e"
  | generation where "r = Inr generation" "get_prop generation ''status'' = Inr (JStr ''completed'')"
  using assms by (auto simp: is_pending_def split: sum.splits)

lemma poll_frame:
  assumes "pollGeneration rt generationId interval w = Some (r, w')"
  shows "currentVideo w' = currentVideo w \<and> currentPrompt w' = currentPrompt w \<and>
         (\<exists>evs. trace w' = trace w @ evs)"
proof (cases "to_string rt generationId")
  case (Inl e)
  then show ?thesis using assms
    by (subst (asm) pollGeneration.simps) (auto simp: getGeneration_throw)
next
  case (Inr path)
  from pending_or_stops[of rt "poll_response rt path interval w"]
  show ?thesis
  proof
    assume "\<forall>k. is_pending rt (poll_response rt path interval w k)"
    from poll_never_completed[OF Inr this] assms show ?thesis by simp
  next
    assume "\<exists>n. \<not> is_pending rt (poll_response rt path interval w n) \<and>
                (\<forall>k<n. is_pending rt (poll_response rt path interval w k))"
    then obtain n where "\<not> is_pending rt (poll_response rt path interval w n)"
      and "\<forall>k<n. is_pending rt (poll_response rt path interval w k)" by blast
    from poll_result[OF Inr this(2) this(1)] assms show ?thesis by auto
  qed
qed

lemma poll_Inr_completed:
  assumes "pollGeneration rt generationId interval w = Some (Inr generation, w')"
  shows "get_prop generation ''status'' = Inr (JStr ''completed'')"
proof (cases "to_string rt generationId")
  case (Inl e)
  then show ?thesis using assms
    by (subst (asm) pollGeneration.simps) (auto simp: getGeneration_throw)
next
  case (Inr path)
  let ?resp = "poll_response rt path interval w"
  from pending_or_stops[of rt ?resp] show ?thesis
  proof
    assume "\<forall>k. is_pending rt (?resp k)"
    from poll_never_completed[OF Inr this] assms show ?thesis by simp
  next
    assume "\<exists>n. \<not> is_pending rt (?resp n) \<and> (\<forall>k<n. is_pending rt (?resp k))"
    then obtain n where stop: "\<not> is_pending rt (?resp n)" and pend: "\<forall>k<n. is_pending rt (?resp k)"
      by blast
    from poll_result[OF Inr pend stop] assms stop show ?thesis
      by (auto simp: is_pending_def split: sum.splits)
  qed
qed

lemma poll_immediate:
  assumes "is_completed (network rt (trace w) (GetGeneration path))"
  shows "pollGeneration rt (JStr path) interval w =
         Some (network rt (trace w) (GetGeneration path),
               w\<lparr>trace := trace w @ [Fetch (GetGeneration path)]\<rparr>)"
proof -
  from assms obtain g where g: "network rt (trace w) (GetGeneration path) = Inr g"
    and st: "get_prop g ''status'' = Inr (JStr ''completed'')"
    by (auto simp: is_completed_def split: sum.splits)
  have "to_string rt (JStr path) = Inr path" by simp
  from poll_unfold_completed[OF this g st] g show ?thesis by simp
qed

lemma poll_immediate_error:
  assumes "network rt (trace w) (GetGeneration path) = Inl e"
  shows "pollGeneration rt (JStr path) interval w =
         Some (Inl e, w\<lparr>trace := trace w @ [Fetch (GetGeneration path)]\<rparr>)"
  using poll_unfold_error[of rt "JStr path" path w e interval] assms by simp

lemma fetches_of_append: "fetches_of (xs @ ys) = fetches_of xs @ fetches_of ys"
  by (induction xs rule: fetches_of.induct) simp_all

lemma sleeps_of_append: "sleeps_of (xs @ ys) = sleeps_of xs @ sleeps_of ys"
  by (induction xs rule: sleeps_of.induct) simp_all

lemma fetches_of_attempts: "fetches_of (attempts req interval k) = replicate k req"
  by (induction k) simp_all

lemma sleeps_of_attempts: "sleeps_of (attempts req interval k) = replicate k interval"
  by (induction k) simp_all

lemma all_less_2: "(\<forall>k<2. P k) = (P 0 \<and> P (Suc 0))"
  by (auto simp: less_Suc_eq numeral_2_eq_2)

subsection \<open>Initialization and refresh cycle\<close>

lemma initializeBackground_caught:
  "initializeBackground_try rt w = Some (r, w') \<Longrightarrow> initializeBackground rt w = Some (Inr (), w')"
  by (simp add: initializeBackground_def split: sum.splits)

lemma updateBackground_caught:
  "updateBackground_try rt w = Some (r, w') \<Longrightarrow> updateBackground rt w = Some (Inr (), w')"
  by (simp add: updateBackground_def split: sum.splits)

lemma initializeBackground_try_fail:
  assumes "initializeBackground_try rt w = Some (Inl e, w')"
  shows "currentVideo w' = currentVideo w \<and>
         Inr (currentPrompt w') = fst (generatePromptForLuma rt (currentPrompt w) w)"
proof -
  obtain r w1 where g: "generatePromptForLuma rt (currentPrompt w) w = (r, w1)"
    by (cases "generatePromptForLuma rt (currentPrompt w) w")
  from generatePromptForLuma_Inr[OF g] obtain prompt where
    r: "r = Inr prompt" and
    w1: "w1 = w\<lparr>trace := trace w @ [Fetch (Completions (currentPrompt w @ '' with slight variation''))]\<rparr>"
    by blast
  show ?thesis
    using assms g r w1
    unfolding initializeBackground_try_def
    by (auto simp: generateVideo_eq Let_def split: sum.splits option.splits prod.splits
             dest!: poll_frame)
qed

lemma updateBackground_try_fail:
  assumes "updateBackground_try rt w = Some (Inl e, w')"
  shows "currentVideo w' = currentVideo w \<and> currentPrompt w' = currentPrompt w"
proof -
  obtain r w1 where g: "generatePromptForLuma rt (currentPrompt w) w = (r, w1)"
    by (cases "generatePromptForLuma rt (currentPrompt w) w")
  from generatePromptForLuma_Inr[OF g] obtain prompt where
    r: "r = Inr prompt" and
    w1: "w1 = w\<lparr>trace := trace w @ [Fetch (Completions (currentPrompt w @ '' with slight variation''))]\<rparr>"
    by blast
  show ?thesis
    using assms g r w1
    unfolding updateBackground_try_def
    by (auto simp: generateVideo_eq interpolateVideos_eq split: sum.splits option.splits prod.splits
             dest!: poll_frame)
qed

lemma updateBackground_try_tail:
  "updateBackground_try rt w =
     (case generatePromptForLuma rt (currentPrompt w) w of
        (Inl error, w1) \<Rightarrow> Some (Inl error, w1)
      | (Inr newPrompt, w1) \<Rightarrow>
          (case generateVideo rt newPrompt w1 of
             (Inl error, w2) \<Rightarrow> Some (Inl error, w2)
           | (Inr newGenResponse, w2) \<Rightarrow>
               (case get_prop newGenResponse ''id'' of
                  Inl error \<Rightarrow> Some (Inl error, w2)
                | Inr newGenId \<Rightarrow>
                    (case pollGeneration rt newGenId 5000 w2 of
                       None \<Rightarrow> None
                     | Some (Inl error, w3) \<Rightarrow> Some (Inl error, w3)
                     | Some (Inr newGeneration, w3) \<Rightarrow>
                         update_tail rt newPrompt newGenId newGeneration w3))))"
  unfolding updateBackground_try_def update_tail_def by (rule refl)

subsection \<open>Runs of the scenarios\<close>

lemma prompt_only_initialize:
  "initializeBackground_try rt_prompt_only initial_world =
     Some (Inl FetchError,
       \<lparr>trace = [Fetch (Completions ''A peaceful dynamic nature background with slight variation''),
                 Fetch (CreateGeneration ''Misty forest at dawn'')],
        currentVideo = \<lparr>id_val = JNull, video_url = JNull\<rparr>,
        currentPrompt = ''Misty forest at dawn''\<rparr>)"
  by (simp add: initializeBackground_try_def generatePromptForLuma_eq
        generateVideo_eq rt_prompt_only_def scripted_def
        initial_world_def prompt_of_data_def trim_id is_space_def)

lemma offline_initialize:
  "initializeBackground_try rt_offline initial_world =
     Some (Inl FetchError,
       \<lparr>trace = [Fetch (Completions ''A peaceful dynamic nature background with slight variation''),
                 Fetch (CreateGeneration ''A peaceful dynamic nature background'')],
        currentVideo = \<lparr>id_val = JNull, video_url = JNull\<rparr>,
        currentPrompt = ''A peaceful dynamic nature background''\<rparr>)"
  by (simp add: initializeBackground_try_def generatePromptForLuma_eq
        generateVideo_eq rt_offline_def scripted_def initial_world_def)

lemmas scenario_simps =
  initializeBackground_try_def updateBackground_try_def generatePromptForLuma_eq
  generateVideo_eq interpolateVideos_eq poll_immediate poll_immediate_error
  scripted_def e2e_network_def initial_world_def prompt_of_data_def is_completed_def
  job_record_def trim_id is_space_def

lemma e2e_initialize_try:
  "initializeBackground_try e2e_runtime initial_world =
     Some (Inr (),
       \<lparr>trace = [Fetch (Completions ''A peaceful dynamic nature background with slight variation''),
                 Fetch (CreateGeneration ''A peaceful dynamic nature background with slight variation''),
                 Fetch (GetGeneration ''A'')],
        currentVideo = \<lparr>id_val = JStr ''A'', video_url = JStr ''http://x/a.mp4''\<rparr>,
        currentPrompt = ''A peaceful dynamic nature background with slight variation''\<rparr>)"
  by (simp add: scenario_simps e2e_runtime_def)

lemma e2e_update_try:
  "updateBackground_try e2e_runtime
       \<lparr>trace = [Fetch (Completions ''A peaceful dynamic nature background with slight variation''),
                 Fetch (CreateGeneration ''A peaceful dynamic nature background with slight variation''),
                 Fetch (GetGeneration ''A'')],
        currentVideo = \<lparr>id_val = JStr ''A'', video_url = JStr ''http://x/a.mp4''\<rparr>,
        currentPrompt = ''A peaceful dynamic nature background with slight variation''\<rparr> =
     Some (Inr (),
       \<lparr>trace = [Fetch (Completions ''A peaceful dynamic nature background with slight variation''),
                 Fetch (CreateGeneration ''A peaceful dynamic nature background with slight variation''),
                 Fetch (GetGeneration ''A''),
                 Fetch (Completions ''A peaceful dynamic nature background with slight variation with slight variation''),
                 Fetch (CreateGeneration ''A peaceful dynamic nature background with slight variation with slight variation''),
                 Fetch (GetGeneration ''B''),
                 Fetch (CreateInterpolation (JStr ''A'') (JStr ''B'') interpolation_prompt),
                 Fetch (GetGeneration ''C'')],
        currentVideo = \<lparr>id_val = JStr ''C'', video_url = JStr ''http://x/c.mp4''\<rparr>,
        currentPrompt = ''A peaceful dynamic nature background with slight variation with slight variation''\<rparr>)"
  by (simp add: scenario_simps e2e_runtime_def)

lemma one_video_initialize:
  "initializeBackground rt_one_video initial_world = Some (Inr (), one_video_world)"
  by (simp add: initializeBackground_def scenario_simps rt_one_video_def one_video_world_def)

lemma one_video_update_try:
  "updateBackground_try rt_one_video one_video_world =
     Some (Inl FetchError,
       one_video_world\<lparr>trace := trace one_video_world @
         [Fetch (Completions ''A peaceful dynamic nature background with slight variation with slight variation''),
          Fetch (CreateGeneration ''A peaceful dynamic nature background with slight variation with slight variation'')]\<rparr>)"
  by (simp add: scenario_simps rt_one_video_def one_video_world_def)

subsection \<open>The event loop\<close>

lemmas loop_simps =
  boot_def step_def tick_def issue_def sleep_def
  poll_fetch_def prompt_result_def prompt_of_data_def echo_body_def processing_def
  job_record_def initial_world_def trim_id is_space_def e2e_runtime_def scripted_def

lemma slow_cycle_run:
  "tasks (run e2e_runtime slow_cycle_schedule boot) =
     [Finished, Upd_sleep ''Ocean waves at dawn'' (JStr ''B''), Upd_prompt ''Ocean waves at sunset'']"
  by code_simp

lemma tick_tasks: "tasks (tick s) = tasks s @ [Upd_prompt (currentPrompt (globals s))]"
  by (simp add: tick_def)

lemma tick_cycles: "cycles_in_flight (tick s) = Suc (cycles_in_flight s)"
  by (simp add: cycles_in_flight_def tick_def)


lemma step_length:
  "length (tasks (step rt ev s)) = length (tasks s) + (case ev of Tick \<Rightarrow> 1 | _ \<Rightarrow> 0)"
  by (cases ev) (simp_all add: step_def tick_def split: prod.splits)

lemma run_length: "length (tasks (run rt evs s)) = length (tasks s) + ticks_of evs"
proof (induction evs arbitrary: s)
  case Nil
  then show ?case by simp
next
  case (Cons ev evs)
  then show ?case by (cases ev) (simp_all add: step_length)
qed

text \<open>
  Under any interleaving, a task of \<^verbatim>\<open>updateBackground\<close> writes the two variables only in
  the step that ends it with success; a task that ends by a throw has written nothing.
\<close>

lemma update_task_writes_at_commit:
  assumes "is_update t" and "settled rt t r w = (t', w')"
  shows "(currentVideo w' = currentVideo w \<and> currentPrompt w' = currentPrompt w)
       \<or> (\<exists>newPrompt interpGenId url.
             t = Upd_interp_poll newPrompt interpGenId \<and> t' = Finished \<and>
             w' = w\<lparr>currentVideo := \<lparr>id_val = interpGenId, video_url = url\<rparr>,
                     currentPrompt := newPrompt\<rparr>)"
  using assms
  by (cases t)
     (auto simp: Let_def issue_def sleep_def poll_fetch_def split: sum.splits if_splits)

lemma update_task_woken_writes_nothing:
  assumes "woken rt t w = (t', w')"
  shows "currentVideo w' = currentVideo w \<and> currentPrompt w' = currentPrompt w"
  using assms
  by (cases t) (auto simp: issue_def poll_fetch_def split: sum.splits)

subsection \<open>The event loop agrees with the sequential functions\<close>

text \<open>
  Whatever an activation of \<^verbatim>\<open>updateBackground\<close> or \<^verbatim>\<open>initializeBackground\<close>
  returns when read as a sequential function, the event loop reaches with that activation
  running alone and the network answering as it does there: the task finishes and the
  globals are the same.
\<close>

lemma run_alone_finished [simp]:
  "run_alone rt n \<lparr>globals = w, tasks = [Finished]\<rparr> = \<lparr>globals = w, tasks = [Finished]\<rparr>"
  by (cases n) simp_all

lemma run_alone_add:
  "run_alone rt (m + n) s = run_alone rt n (run_alone rt m s)"
proof (induction m arbitrary: s)
  case 0
  then show ?case by simp
next
  case (Suc m)
  show ?case
  proof (cases "tasks s = [Finished]")
    case True
    then have "s = \<lparr>globals = globals s, tasks = [Finished]\<rparr>" by simp
    then have "run_alone rt k s = s" for k by (metis run_alone_finished)
    then show ?thesis using True by simp
  next
    case False
    then show ?thesis using Suc.IH by simp
  qed
qed

lemma step_fetching:
  assumes "t \<noteq> Finished"
  shows "run_alone rt (Suc n) \<lparr>globals = issue req w, tasks = [t]\<rparr> =
         run_alone rt n
           (case settled rt t (network rt (trace w) req) (issue req w) of
              (t', w') \<Rightarrow> \<lparr>globals = w', tasks = [t']\<rparr>)"
  using assms by (simp add: answer_def step_def issue_def split: prod.splits)

lemma step_sleeping:
  assumes "t \<noteq> Finished"
  shows "run_alone rt (Suc n) \<lparr>globals = sleep ms w, tasks = [t]\<rparr> =
         run_alone rt n
           (case woken rt t (sleep ms w) of (t', w') \<Rightarrow> \<lparr>globals = w', tasks = [t']\<rparr>)"
  using assms by (simp add: answer_def step_def sleep_def split: prod.splits)

lemma alone_polling:
  assumes ts: "to_string rt g = Inr path"
    and P: "\<And>r w. is_pending rt r \<Longrightarrow> settled rt P r w = (S, sleep 5000 w)"
    and S: "\<And>w. woken rt S w =
              (case poll_fetch rt g w of (Inl error, w1) \<Rightarrow> (Finished, w1) | (Inr u, w1) \<Rightarrow> (P, w1))"
    and nf: "P \<noteq> Finished" "S \<noteq> Finished"
    and pend: "\<forall>j<k. is_pending rt (poll_response rt path 5000 w j)"
  shows "run_alone rt (2 * k) \<lparr>globals = issue (GetGeneration path) w, tasks = [P]\<rparr> =
         \<lparr>globals = issue (GetGeneration path)
                      (w\<lparr>trace := trace w @ attempts (GetGeneration path) 5000 k\<rparr>),
          tasks = [P]\<rparr>"
  using pend
proof (induction k arbitrary: w)
  case 0
  then show ?case by simp
next
  case (Suc k)
  let ?req = "GetGeneration path"
  let ?w1 = "w\<lparr>trace := trace w @ [Fetch ?req, Sleep 5000]\<rparr>"
  from Suc.prems have p0: "is_pending rt (network rt (trace w) ?req)"
    by (auto simp: poll_response_def dest: spec[where x=0])
  have shift: "\<forall>j<k. is_pending rt (poll_response rt path 5000 ?w1 j)"
  proof (intro allI impI)
    fix j assume "j < k"
    then have "is_pending rt (poll_response rt path 5000 w (Suc j))" using Suc.prems by simp
    then show "is_pending rt (poll_response rt path 5000 ?w1 j)" by (simp add: poll_response_def)
  qed
  have one: "run_alone rt (Suc (Suc n)) \<lparr>globals = issue ?req w, tasks = [P]\<rparr> =
             run_alone rt n \<lparr>globals = issue ?req ?w1, tasks = [P]\<rparr>" for n
  proof -
    have "run_alone rt (Suc (Suc n)) \<lparr>globals = issue ?req w, tasks = [P]\<rparr> =
          run_alone rt (Suc n) \<lparr>globals = sleep 5000 (issue ?req w), tasks = [S]\<rparr>"
      by (simp only: step_fetching[OF nf(1)] P[OF p0] prod.case)
    also have "\<dots> = run_alone rt n \<lparr>globals = issue ?req ?w1, tasks = [P]\<rparr>"
      by (simp only: step_sleeping[OF nf(2)] S) (simp add: poll_fetch_def ts issue_def sleep_def)
    finally show ?thesis .
  qed
  have "run_alone rt (2 * Suc k) \<lparr>globals = issue ?req w, tasks = [P]\<rparr> =
        run_alone rt (2 * k) \<lparr>globals = issue ?req ?w1, tasks = [P]\<rparr>"
    using one[of "2 * k"] by simp
  also have "\<dots> = \<lparr>globals = issue ?req (?w1\<lparr>trace := trace ?w1 @ attempts ?req 5000 k\<rparr>),
                     tasks = [P]\<rparr>"
    by (rule Suc.IH[OF shift])
  finally show ?case by simp
qed

lemma alone_poll_last:
  assumes ts: "to_string rt g = Inr path"
    and P: "\<And>r w. is_pending rt r \<Longrightarrow> settled rt P r w = (S, sleep 5000 w)"
    and S: "\<And>w. woken rt S w =
              (case poll_fetch rt g w of (Inl error, w1) \<Rightarrow> (Finished, w1) | (Inr u, w1) \<Rightarrow> (P, w1))"
    and nf: "P \<noteq> Finished" "S \<noteq> Finished"
    and poll: "pollGeneration rt g 5000 w = Some (res, w')"
  shows "\<exists>k v r. run_alone rt k \<lparr>globals = issue (GetGeneration path) w, tasks = [P]\<rparr> =
                    \<lparr>globals = issue (GetGeneration path) v, tasks = [P]\<rparr>
               \<and> w' = issue (GetGeneration path) v
               \<and> r = network rt (trace v) (GetGeneration path)
               \<and> \<not> is_pending rt r
               \<and> res = (case r of
                          Inl e \<Rightarrow> Inl e
                        | Inr generation \<Rightarrow>
                            (case get_prop generation ''status'' of
                               Inl e \<Rightarrow> Inl e
                             | Inr status \<Rightarrow>
                                 (case to_string rt status of Inl e \<Rightarrow> Inl e | Inr logged \<Rightarrow> Inr generation)))"
proof -
  let ?resp = "poll_response rt path 5000 w"
  let ?req = "GetGeneration path"
  from pending_or_stops[of rt ?resp] show ?thesis
  proof
    assume "\<forall>k. is_pending rt (?resp k)"
    from poll_never_completed[OF ts this] poll show ?thesis by simp
  next
    assume "\<exists>n. \<not> is_pending rt (?resp n) \<and> (\<forall>k<n. is_pending rt (?resp k))"
    then obtain n where stop: "\<not> is_pending rt (?resp n)" and pend: "\<forall>k<n. is_pending rt (?resp k)"
      by blast
    let ?v = "w\<lparr>trace := trace w @ attempts ?req 5000 n\<rparr>"
    have "run_alone rt (2 * n) \<lparr>globals = issue ?req w, tasks = [P]\<rparr> =
          \<lparr>globals = issue ?req ?v, tasks = [P]\<rparr>"
      by (rule alone_polling[OF ts P S nf pend])
    moreover from poll_result[OF ts pend stop] poll
    have "w' = issue ?req ?v" and
      "res = (case ?resp n of
                Inl e \<Rightarrow> Inl e
              | Inr generation \<Rightarrow>
                  (case get_prop generation ''status'' of
                     Inl e \<Rightarrow> Inl e
                   | Inr status \<Rightarrow>
                       (case to_string rt status of Inl e \<Rightarrow> Inl e | Inr logged \<Rightarrow> Inr generation)))"
      by (simp_all add: issue_def)
    moreover have "?resp n = network rt (trace ?v) ?req"
      by (simp add: poll_response_def)
    ultimately show ?thesis using stop
      by (intro exI[of _ "2 * n"] exI[of _ ?v] exI[of _ "?resp n"]) simp
  qed
qed

lemma alone_init_poll:
  assumes ts: "to_string rt genId = Inr path"
    and poll: "pollGeneration rt genId 5000 w = Some (res, w')"
  shows "\<exists>n. run_alone rt n \<lparr>globals = issue (GetGeneration path) w, tasks = [Init_poll genId]\<rparr> =
           \<lparr>globals =
              (case res of
                 Inl error \<Rightarrow> w'
               | Inr generation \<Rightarrow>
                   (case get_prop generation ''video_url'' of
                      Inl error \<Rightarrow> w'
                    | Inr url \<Rightarrow> w'\<lparr>currentVideo := \<lparr>id_val = genId, video_url = url\<rparr>\<rparr>)),
            tasks = [Finished]\<rparr>"
proof -
  let ?req = "GetGeneration path"
  let ?P = "Init_poll genId"
  have P: "\<And>r w. is_pending rt r \<Longrightarrow> settled rt ?P r w = (Init_sleep genId, sleep 5000 w)"
    by (auto simp: is_pending_def split: sum.splits)
  have S: "\<And>w. woken rt (Init_sleep genId) w =
             (case poll_fetch rt genId w of (Inl error, w1) \<Rightarrow> (Finished, w1) | (Inr u, w1) \<Rightarrow> (?P, w1))"
    by simp
  from alone_poll_last[OF ts P S _ _ poll]
  obtain k v r where
    run: "run_alone rt k \<lparr>globals = issue ?req w, tasks = [?P]\<rparr> =
            \<lparr>globals = issue ?req v, tasks = [?P]\<rparr>"
    and w': "w' = issue ?req v"
    and r: "r = network rt (trace v) ?req"
    and stop: "\<not> is_pending rt r"
    and res: "res = (case r of
                       Inl e \<Rightarrow> Inl e
                     | Inr generation \<Rightarrow>
                         (case get_prop generation ''status'' of
                            Inl e \<Rightarrow> Inl e
                          | Inr status \<Rightarrow>
                              (case to_string rt status of Inl e \<Rightarrow> Inl e | Inr logged \<Rightarrow> Inr generation)))"
    by auto
  have "run_alone rt (k + 1) \<lparr>globals = issue ?req w, tasks = [?P]\<rparr> =
        (case settled rt ?P r (issue ?req v) of (t', u) \<Rightarrow> \<lparr>globals = u, tasks = [t']\<rparr>)"
    unfolding run_alone_add run
    using step_fetching[of ?P rt 0 ?req v] r by simp
  also from stop have "\<dots> =
           \<lparr>globals =
              (case res of
                 Inl error \<Rightarrow> w'
               | Inr generation \<Rightarrow>
                   (case get_prop generation ''video_url'' of
                      Inl error \<Rightarrow> w'
                    | Inr url \<Rightarrow> w'\<lparr>currentVideo := \<lparr>id_val = genId, video_url = url\<rparr>\<rparr>)),
            tasks = [Finished]\<rparr>"
    by (cases rule: not_pending_cases) (auto simp: res w' split: sum.splits)
  finally show ?thesis by blast
qed

lemma alone_interp_poll:
  assumes ts: "to_string rt interpGenId = Inr path"
    and poll: "pollGeneration rt interpGenId 5000 w = Some (res, w')"
  shows "\<exists>n. run_alone rt n
               \<lparr>globals = issue (GetGeneration path) w, tasks = [Upd_interp_poll newPrompt interpGenId]\<rparr> =
           \<lparr>globals =
              (case res of
                 Inl error \<Rightarrow> w'
               | Inr generation \<Rightarrow>
                   (case get_prop generation ''video_url'' of
                      Inl error \<Rightarrow> w'
                    | Inr url \<Rightarrow> w'\<lparr>currentVideo := \<lparr>id_val = interpGenId, video_url = url\<rparr>,
                                   currentPrompt := newPrompt\<rparr>)),
            tasks = [Finished]\<rparr>"
proof -
  let ?req = "GetGeneration path"
  let ?P = "Upd_interp_poll newPrompt interpGenId"
  let ?S = "Upd_interp_sleep newPrompt interpGenId"
  have P: "\<And>r w. is_pending rt r \<Longrightarrow> settled rt ?P r w = (?S, sleep 5000 w)"
    by (auto simp: is_pending_def split: sum.splits)
  have S: "\<And>w. woken rt ?S w =
             (case poll_fetch rt interpGenId w of (Inl error, w1) \<Rightarrow> (Finished, w1) | (Inr u, w1) \<Rightarrow> (?P, w1))"
    by simp
  from alone_poll_last[OF ts P S _ _ poll]
  obtain k v r where
    run: "run_alone rt k \<lparr>globals = issue ?req w, tasks = [?P]\<rparr> =
            \<lparr>globals = issue ?req v, tasks = [?P]\<rparr>"
    and w': "w' = issue ?req v"
    and r: "r = network rt (trace v) ?req"
    and stop: "\<not> is_pending rt r"
    and res: "res = (case r of
                       Inl e \<Rightarrow> Inl e
                     | Inr generation \<Rightarrow>
                         (case get_prop generation ''status'' of
                            Inl e \<Rightarrow> Inl e
                          | Inr status \<Rightarrow>
                              (case to_string rt status of Inl e \<Rightarrow> Inl e | Inr logged \<Rightarrow> Inr generation)))"
    by auto
  have "run_alone rt (k + 1) \<lparr>globals = issue ?req w, tasks = [?P]\<rparr> =
        (case settled rt ?P r (issue ?req v) of (t', u) \<Rightarrow> \<lparr>globals = u, tasks = [t']\<rparr>)"
    unfolding run_alone_add run
    using step_fetching[of ?P rt 0 ?req v] r by simp
  also from stop have "\<dots> =
           \<lparr>globals =
              (case res of
                 Inl error \<Rightarrow> w'
               | Inr generation \<Rightarrow>
                   (case get_prop generation ''video_url'' of
                      Inl error \<Rightarrow> w'
                    | Inr url \<Rightarrow> w'\<lparr>currentVideo := \<lparr>id_val = interpGenId, video_url = url\<rparr>,
                                   currentPrompt := newPrompt\<rparr>)),
            tasks = [Finished]\<rparr>"
    by (cases rule: not_pending_cases) (auto simp: res w' split: sum.splits)
  finally show ?thesis by blast
qed

lemma alone_interp:
  assumes tail: "update_tail rt newPrompt newGenId newGeneration w3 = Some (res, w')"
    and url: "get_prop newGeneration ''video_url'' = Inr newUrl"
  shows "\<exists>n. run_alone rt n
               \<lparr>globals = issue (CreateInterpolation (id_val (currentVideo w3)) newGenId
                                  interpolation_prompt) w3,
                tasks = [Upd_interp newPrompt]\<rparr> =
             \<lparr>globals = w', tasks = [Finished]\<rparr>"
proof -
  let ?req = "CreateInterpolation (id_val (currentVideo w3)) newGenId interpolation_prompt"
  let ?w4 = "issue ?req w3"
  let ?r = "network rt (trace w3) ?req"
  have one: "run_alone rt (Suc n) \<lparr>globals = ?w4, tasks = [Upd_interp newPrompt]\<rparr> =
             run_alone rt n
               (case settled rt (Upd_interp newPrompt) ?r ?w4 of
                  (t', u) \<Rightarrow> \<lparr>globals = u, tasks = [t']\<rparr>)" for n
    by (rule step_fetching) simp
  show ?thesis
  proof (cases ?r)
    case (Inl e)
    with tail url have "w' = ?w4" by (simp add: update_tail_def interpolateVideos_eq issue_def)
    with one[of 0] Inl show ?thesis by (auto intro!: exI[of _ "Suc 0"])
  next
    case (Inr interpResponse)
    show ?thesis
    proof (cases "get_prop interpResponse ''id''")
      case (Inl e)
      with tail url Inr have "w' = ?w4" by (simp add: update_tail_def interpolateVideos_eq issue_def)
      with one[of 0] Inr Inl show ?thesis by (auto intro!: exI[of _ "Suc 0"])
    next
      case id: (Inr interpGenId)
      show ?thesis
      proof (cases "to_string rt interpGenId")
        case (Inl e)
        from tail url Inr id poll_throw[OF Inl, of 5000 ?w4] have "w' = ?w4"
          by (simp add: update_tail_def interpolateVideos_eq issue_def)
        with one[of 0] Inr id Inl show ?thesis
          by (auto simp: poll_fetch_def intro!: exI[of _ "Suc 0"])
      next
        case ts: (Inr path)
        from tail url Inr id obtain pres w5 where
          poll: "pollGeneration rt interpGenId 5000 ?w4 = Some (pres, w5)"
          and w': "w' = (case pres of
                 Inl error \<Rightarrow> w5
               | Inr generation \<Rightarrow>
                   (case get_prop generation ''video_url'' of
                      Inl error \<Rightarrow> w5
                    | Inr url \<Rightarrow> w5\<lparr>currentVideo := \<lparr>id_val = interpGenId, video_url = url\<rparr>,
                                   currentPrompt := newPrompt\<rparr>))"
          by (auto simp: update_tail_def interpolateVideos_eq issue_def
                   split: option.splits sum.splits)
        from alone_interp_poll[OF ts poll, of newPrompt] obtain m where
          m: "run_alone rt m
               \<lparr>globals = issue (GetGeneration path) ?w4, tasks = [Upd_interp_poll newPrompt interpGenId]\<rparr> =
              \<lparr>globals = w', tasks = [Finished]\<rparr>"
          unfolding w' by blast
        have "run_alone rt (Suc m) \<lparr>globals = ?w4, tasks = [Upd_interp newPrompt]\<rparr> =
              \<lparr>globals = w', tasks = [Finished]\<rparr>"
          unfolding one using Inr id ts m by (simp add: poll_fetch_def)
        then show ?thesis by blast
      qed
    qed
  qed
qed

lemma alone_upd_poll:
  assumes ts: "to_string rt newGenId = Inr path"
    and tail: "(case pollGeneration rt newGenId 5000 w of
                  None \<Rightarrow> None
                | Some (Inl error, w3) \<Rightarrow> Some (Inl error, w3)
                | Some (Inr newGeneration, w3) \<Rightarrow>
                    update_tail rt newPrompt newGenId newGeneration w3) = Some (res, w')"
  shows "\<exists>n. run_alone rt n
               \<lparr>globals = issue (GetGeneration path) w, tasks = [Upd_poll newPrompt newGenId]\<rparr> =
             \<lparr>globals = w', tasks = [Finished]\<rparr>"
proof -
  let ?req = "GetGeneration path"
  let ?P = "Upd_poll newPrompt newGenId"
  let ?S = "Upd_sleep newPrompt newGenId"
  have P: "\<And>r w. is_pending rt r \<Longrightarrow> settled rt ?P r w = (?S, sleep 5000 w)"
    by (auto simp: is_pending_def split: sum.splits)
  have S: "\<And>w. woken rt ?S w =
             (case poll_fetch rt newGenId w of (Inl error, w1) \<Rightarrow> (Finished, w1) | (Inr u, w1) \<Rightarrow> (?P, w1))"
    by simp
  from tail obtain pres w3 where poll: "pollGeneration rt newGenId 5000 w = Some (pres, w3)"
    by (auto split: option.splits)
  from alone_poll_last[OF ts P S _ _ poll]
  obtain k v r where
    run: "run_alone rt k \<lparr>globals = issue ?req w, tasks = [?P]\<rparr> =
            \<lparr>globals = issue ?req v, tasks = [?P]\<rparr>"
    and w3: "w3 = issue ?req v"
    and r: "r = network rt (trace v) ?req"
    and stop: "\<not> is_pending rt r"
    and pres: "pres = (case r of
                       Inl e \<Rightarrow> Inl e
                     | Inr generation \<Rightarrow>
                         (case get_prop generation ''status'' of
                            Inl e \<Rightarrow> Inl e
                          | Inr status \<Rightarrow>
                              (case to_string rt status of Inl e \<Rightarrow> Inl e | Inr logged \<Rightarrow> Inr generation)))"
    by auto
  have last: "run_alone rt (k + Suc n) \<lparr>globals = issue ?req w, tasks = [?P]\<rparr> =
        run_alone rt n (case settled rt ?P r w3 of (t', u) \<Rightarrow> \<lparr>globals = u, tasks = [t']\<rparr>)" for n
    unfolding run_alone_add run w3
    using step_fetching[of ?P rt n ?req v] r by simp
  from stop show ?thesis
  proof (cases rule: not_pending_cases)
    case (1 e)
    with tail poll pres have "w' = w3" by simp
    with last[of 0] 1 show ?thesis by (auto intro!: exI[of _ "k + Suc 0"])
  next
    case (2 generation e)
    with tail poll pres have "w' = w3" by simp
    with last[of 0] 2 show ?thesis by (auto intro!: exI[of _ "k + Suc 0"])
  next
    case (3 generation status e)
    with tail poll pres have "w' = w3" by simp
    with last[of 0] 3 show ?thesis by (auto intro!: exI[of _ "k + Suc 0"])
  next
    case (4 generation)
    with tail poll pres have t: "update_tail rt newPrompt newGenId generation w3 = Some (res, w')"
      by simp
    show ?thesis
    proof (cases "get_prop generation ''video_url''")
      case (Inl e)
      with t have "w' = w3" by (simp add: update_tail_def)
      with last[of 0] 4 Inl show ?thesis by (auto intro!: exI[of _ "k + Suc 0"])
    next
      case (Inr newUrl)
      from alone_interp[OF t Inr] obtain m where
        "run_alone rt m
           \<lparr>globals = issue (CreateInterpolation (id_val (currentVideo w3)) newGenId
                              interpolation_prompt) w3,
            tasks = [Upd_interp newPrompt]\<rparr> =
         \<lparr>globals = w', tasks = [Finished]\<rparr>" by blast
      with last[of m] 4 Inr show ?thesis by (auto intro!: exI[of _ "k + Suc m"])
    qed
  qed
qed

theorem updateBackground_alone:
  assumes "updateBackground_try rt w = Some (res, w')"
  shows "\<exists>n. run_alone rt n (tick \<lparr>globals = w, tasks = []\<rparr>) = \<lparr>globals = w', tasks = [Finished]\<rparr>"
proof -
  let ?b = "currentPrompt w"
  let ?req0 = "Completions (?b @ '' with slight variation'')"
  let ?p = "prompt_result rt ?b (network rt (trace w) ?req0)"
  let ?w1 = "issue ?req0 w"
  let ?req1 = "CreateGeneration ?p"
  let ?w2 = "issue ?req1 ?w1"
  let ?r1 = "network rt (trace ?w1) ?req1"
  have start: "tick \<lparr>globals = w, tasks = []\<rparr> = \<lparr>globals = ?w1, tasks = [Upd_prompt ?b]\<rparr>"
    by (simp add: tick_def)
  have one: "run_alone rt (Suc (Suc n)) \<lparr>globals = ?w1, tasks = [Upd_prompt ?b]\<rparr> =
             run_alone rt n
               (case settled rt (Upd_video ?p) ?r1 ?w2 of (t', u) \<Rightarrow> \<lparr>globals = u, tasks = [t']\<rparr>)" for n
  proof -
    have nf: "Upd_prompt ?b \<noteq> Finished" by simp
    have s1: "settled rt (Upd_prompt ?b) (network rt (trace w) ?req0) ?w1 = (Upd_video ?p, ?w2)"
      by (simp add: Let_def)
    have "run_alone rt (Suc (Suc n)) \<lparr>globals = ?w1, tasks = [Upd_prompt ?b]\<rparr> =
          run_alone rt (Suc n) \<lparr>globals = ?w2, tasks = [Upd_video ?p]\<rparr>"
      by (simp only: step_fetching[OF nf] s1 prod.case)
    also have "\<dots> = run_alone rt n
               (case settled rt (Upd_video ?p) ?r1 ?w2 of (t', u) \<Rightarrow> \<lparr>globals = u, tasks = [t']\<rparr>)"
      by (rule step_fetching) simp
    finally show ?thesis .
  qed
  from assms have seq:
    "(case ?r1 of
        Inl error \<Rightarrow> Some (Inl error, ?w2)
      | Inr newGenResponse \<Rightarrow>
          (case get_prop newGenResponse ''id'' of
             Inl error \<Rightarrow> Some (Inl error, ?w2)
           | Inr newGenId \<Rightarrow>
               (case pollGeneration rt newGenId 5000 ?w2 of
                  None \<Rightarrow> None
                | Some (Inl error, w3) \<Rightarrow> Some (Inl error, w3)
                | Some (Inr newGeneration, w3) \<Rightarrow>
                    update_tail rt ?p newGenId newGeneration w3))) = Some (res, w')"
    by (simp add: updateBackground_try_tail prompt_result_eq generateVideo_issue)
  show ?thesis
  proof (cases ?r1)
    case (Inl e)
    with seq have "w' = ?w2" by simp
    with one[of 0] Inl show ?thesis unfolding start by (auto intro!: exI[of _ "Suc (Suc 0)"])
  next
    case (Inr newGenResponse)
    show ?thesis
    proof (cases "get_prop newGenResponse ''id''")
      case (Inl e)
      with seq Inr have "w' = ?w2" by simp
      with one[of 0] Inr Inl show ?thesis unfolding start by (auto intro!: exI[of _ "Suc (Suc 0)"])
    next
      case id: (Inr newGenId)
      show ?thesis
      proof (cases "to_string rt newGenId")
        case (Inl e)
        from seq Inr id poll_throw[OF Inl, of 5000 ?w2] have "w' = ?w2" by simp
        with one[of 0] Inr id Inl show ?thesis unfolding start
          by (auto simp: poll_fetch_def intro!: exI[of _ "Suc (Suc 0)"])
      next
        case ts: (Inr path)
        from seq Inr id have
          "(case pollGeneration rt newGenId 5000 ?w2 of
              None \<Rightarrow> None
            | Some (Inl error, w3) \<Rightarrow> Some (Inl error, w3)
            | Some (Inr newGeneration, w3) \<Rightarrow>
                update_tail rt ?p newGenId newGeneration w3) = Some (res, w')" by simp
        from alone_upd_poll[OF ts this] obtain m where
          "run_alone rt m
             \<lparr>globals = issue (GetGeneration path) ?w2, tasks = [Upd_poll ?p newGenId]\<rparr> =
           \<lparr>globals = w', tasks = [Finished]\<rparr>" by blast
        with one[of m] Inr id ts show ?thesis unfolding start
          by (auto simp: poll_fetch_def intro!: exI[of _ "Suc (Suc m)"])
      qed
    qed
  qed
qed

theorem initializeBackground_alone:
  assumes "initializeBackground_try rt initial_world = Some (res, w')"
  shows "\<exists>n. run_alone rt n boot = \<lparr>globals = w', tasks = [Finished]\<rparr>"
proof -
  let ?w = "initial_world"
  let ?b = "currentPrompt ?w"
  let ?req0 = "Completions (?b @ '' with slight variation'')"
  let ?p = "prompt_result rt ?b (network rt (trace ?w) ?req0)"
  let ?w1 = "(issue ?req0 ?w)\<lparr>currentPrompt := ?p\<rparr>"
  let ?req1 = "CreateGeneration ?p"
  let ?w2 = "issue ?req1 ?w1"
  let ?r1 = "network rt (trace ?w1) ?req1"
  have start: "boot = \<lparr>globals = issue ?req0 ?w, tasks = [Init_prompt ?b]\<rparr>"
    by (simp add: boot_def)
  have one: "run_alone rt (Suc (Suc n)) \<lparr>globals = issue ?req0 ?w, tasks = [Init_prompt ?b]\<rparr> =
             run_alone rt n
               (case settled rt Init_video ?r1 ?w2 of (t', u) \<Rightarrow> \<lparr>globals = u, tasks = [t']\<rparr>)" for n
  proof -
    have nf: "Init_prompt ?b \<noteq> Finished" by simp
    have s1: "settled rt (Init_prompt ?b) (network rt (trace ?w) ?req0) (issue ?req0 ?w) =
              (Init_video, ?w2)"
      by (simp add: Let_def)
    have "run_alone rt (Suc (Suc n)) \<lparr>globals = issue ?req0 ?w, tasks = [Init_prompt ?b]\<rparr> =
          run_alone rt (Suc n) \<lparr>globals = ?w2, tasks = [Init_video]\<rparr>"
      by (simp only: step_fetching[OF nf] s1 prod.case)
    also have "\<dots> = run_alone rt n
               (case settled rt Init_video ?r1 ?w2 of (t', u) \<Rightarrow> \<lparr>globals = u, tasks = [t']\<rparr>)"
      by (rule step_fetching) simp
    finally show ?thesis .
  qed
  from assms have seq:
    "(case ?r1 of
        Inl error \<Rightarrow> Some (Inl error, ?w2)
      | Inr genResponse \<Rightarrow>
          (case get_prop genResponse ''id'' of
             Inl error \<Rightarrow> Some (Inl error, ?w2)
           | Inr genId \<Rightarrow>
               (case pollGeneration rt genId 5000 ?w2 of
                  None \<Rightarrow> None
                | Some (Inl error, w4) \<Rightarrow> Some (Inl error, w4)
                | Some (Inr generation, w4) \<Rightarrow>
                    (case get_prop generation ''video_url'' of
                       Inl error \<Rightarrow> Some (Inl error, w4)
                     | Inr url \<Rightarrow>
                         Some (Inr (), w4\<lparr>currentVideo := \<lparr>id_val = genId, video_url = url\<rparr>\<rparr>))))) =
     Some (res, w')"
    by (simp add: initializeBackground_try_def prompt_result_eq generateVideo_issue Let_def
             cong: sum.case_cong option.case_cong prod.case_cong)
  show ?thesis
  proof (cases ?r1)
    case (Inl e)
    with seq have "w' = ?w2" by simp
    with one[of 0] Inl show ?thesis unfolding start by (auto intro!: exI[of _ "Suc (Suc 0)"])
  next
    case (Inr genResponse)
    show ?thesis
    proof (cases "get_prop genResponse ''id''")
      case (Inl e)
      with seq Inr have "w' = ?w2" by simp
      with one[of 0] Inr Inl show ?thesis unfolding start by (auto intro!: exI[of _ "Suc (Suc 0)"])
    next
      case id: (Inr genId)
      show ?thesis
      proof (cases "to_string rt genId")
        case (Inl e)
        from seq Inr id poll_throw[OF Inl, of 5000 ?w2] have "w' = ?w2" by simp
        with one[of 0] Inr id Inl show ?thesis unfolding start
          by (auto simp: poll_fetch_def intro!: exI[of _ "Suc (Suc 0)"])
      next
        case ts: (Inr path)
        from seq Inr id obtain pres w4 where
          poll: "pollGeneration rt genId 5000 ?w2 = Some (pres, w4)"
          and w': "w' = (case pres of
                 Inl error \<Rightarrow> w4
               | Inr generation \<Rightarrow>
                   (case get_prop generation ''video_url'' of
                      Inl error \<Rightarrow> w4
                    | Inr url \<Rightarrow> w4\<lparr>currentVideo := \<lparr>id_val = genId, video_url = url\<rparr>\<rparr>))"
          by (auto split: option.splits sum.splits)
        from alone_init_poll[OF ts poll] obtain m where
          "run_alone rt m \<lparr>globals = issue (GetGeneration path) ?w2, tasks = [Init_poll genId]\<rparr> =
           \<lparr>globals = w', tasks = [Finished]\<rparr>"
          unfolding w' by blast
        with one[of m] Inr id ts show ?thesis unfolding start
          by (auto simp: poll_fetch_def intro!: exI[of _ "Suc (Suc m)"])
      qed
    qed
  qed
qed

lemma alone_upd_start:
  "run_alone rt (Suc (Suc n)) (tick \<lparr>globals = w, tasks = []\<rparr>) =
   run_alone rt n
     (case settled rt
             (Upd_video (prompt_result rt (currentPrompt w)
                (network rt (trace w) (Completions (currentPrompt w @ '' with slight variation'')))))
             (network rt
                (trace (issue (Completions (currentPrompt w @ '' with slight variation'')) w))
                (CreateGeneration (prompt_result rt (currentPrompt w)
                   (network rt (trace w) (Completions (currentPrompt w @ '' with slight variation''))))))
             (issue (CreateGeneration (prompt_result rt (currentPrompt w)
                       (network rt (trace w) (Completions (currentPrompt w @ '' with slight variation'')))))
                (issue (Completions (currentPrompt w @ '' with slight variation'')) w)) of
        (t', u) \<Rightarrow> \<lparr>globals = u, tasks = [t']\<rparr>)"
proof -
  let ?b = "currentPrompt w"
  let ?req0 = "Completions (?b @ '' with slight variation'')"
  let ?p = "prompt_result rt ?b (network rt (trace w) ?req0)"
  let ?w1 = "issue ?req0 w"
  let ?req1 = "CreateGeneration ?p"
  let ?w2 = "issue ?req1 ?w1"
  let ?r1 = "network rt (trace ?w1) ?req1"
  have start: "tick \<lparr>globals = w, tasks = []\<rparr> = \<lparr>globals = ?w1, tasks = [Upd_prompt ?b]\<rparr>"
    by (simp add: tick_def)
  have nf: "Upd_prompt ?b \<noteq> Finished" by simp
  have s1: "settled rt (Upd_prompt ?b) (network rt (trace w) ?req0) ?w1 = (Upd_video ?p, ?w2)"
    by (simp add: Let_def)
  have "run_alone rt (Suc (Suc n)) \<lparr>globals = ?w1, tasks = [Upd_prompt ?b]\<rparr> =
        run_alone rt (Suc n) \<lparr>globals = ?w2, tasks = [Upd_video ?p]\<rparr>"
    by (simp only: step_fetching[OF nf] s1 prod.case)
  also have "\<dots> = run_alone rt n
             (case settled rt (Upd_video ?p) ?r1 ?w2 of (t', u) \<Rightarrow> \<lparr>globals = u, tasks = [t']\<rparr>)"
    by (rule step_fetching) simp
  finally show ?thesis unfolding start .
qed

lemma alone_reaches_interp:
  assumes ts: "to_string rt newGenId = Inr path"
    and poll: "pollGeneration rt newGenId 5000 w = Some (Inr newGeneration, w3)"
  shows "\<exists>n. run_alone rt n
               \<lparr>globals = issue (GetGeneration path) w, tasks = [Upd_poll newPrompt newGenId]\<rparr> =
             \<lparr>globals = issue (CreateInterpolation (id_val (currentVideo w3)) newGenId
                                interpolation_prompt) w3,
              tasks = [Upd_interp newPrompt]\<rparr>"
proof -
  let ?req = "GetGeneration path"
  let ?P = "Upd_poll newPrompt newGenId"
  let ?S = "Upd_sleep newPrompt newGenId"
  have P: "\<And>r w. is_pending rt r \<Longrightarrow> settled rt ?P r w = (?S, sleep 5000 w)"
    by (auto simp: is_pending_def split: sum.splits)
  have S: "\<And>w. woken rt ?S w =
             (case poll_fetch rt newGenId w of (Inl error, w1) \<Rightarrow> (Finished, w1) | (Inr u, w1) \<Rightarrow> (?P, w1))"
    by simp
  from alone_poll_last[OF ts P S _ _ poll]
  obtain k v r where
    run: "run_alone rt k \<lparr>globals = issue ?req w, tasks = [?P]\<rparr> =
            \<lparr>globals = issue ?req v, tasks = [?P]\<rparr>"
    and w3: "w3 = issue ?req v"
    and r: "r = network rt (trace v) ?req"
    and stop: "\<not> is_pending rt r"
    and res: "Inr newGeneration = (case r of
                       Inl e \<Rightarrow> Inl e
                     | Inr generation \<Rightarrow>
                         (case get_prop generation ''status'' of
                            Inl e \<Rightarrow> Inl e
                          | Inr status \<Rightarrow>
                              (case to_string rt status of Inl e \<Rightarrow> Inl e | Inr logged \<Rightarrow> Inr generation)))"
    by auto
  from get_prop_defined[OF poll_Inr_completed[OF poll]] obtain url where
    url: "get_prop newGeneration ''video_url'' = Inr url" by blast
  have "run_alone rt (k + Suc 0) \<lparr>globals = issue ?req w, tasks = [?P]\<rparr> =
        (case settled rt ?P r w3 of (t', u) \<Rightarrow> \<lparr>globals = u, tasks = [t']\<rparr>)"
    unfolding run_alone_add run w3
    using step_fetching[of ?P rt 0 ?req v] r by simp
  also from stop have "\<dots> =
        \<lparr>globals = issue (CreateInterpolation (id_val (currentVideo w3)) newGenId
                           interpolation_prompt) w3,
         tasks = [Upd_interp newPrompt]\<rparr>"
    using res url by (cases rule: not_pending_cases) (auto split: sum.splits)
  finally show ?thesis by blast
qed

section \<open>Claims\<close>

text \<open>
  Claim C3. \<^verbatim>\<open>generatePromptForLuma\<close> never raises: whatever the network does, it
  returns a string. It returns the base prompt unchanged when the request or the parsing
  of the body is rejected and when the \<^verbatim>\<open>choices\<close> of the body are missing, falsy or an
  empty array. It returns anything else than the base prompt only when the body has truthy
  \<^verbatim>\<open>choices\<close> of positive length whose first element has a string as \<^verbatim>\<open>text\<close>; the
  result is then that string, trimmed. So every malformed response gives the base prompt.
\<close>

theorem generatePromptForLuma_never_raises:
  "(\<exists>prompt. fst (generatePromptForLuma rt basePrompt w) = Inr prompt)
   \<and> (\<forall>e. network rt (trace w) (Completions (basePrompt @ '' with slight variation'')) = Inl e
          \<longrightarrow> fst (generatePromptForLuma rt basePrompt w) = Inr basePrompt)
   \<and> (\<forall>data choices.
          network rt (trace w) (Completions (basePrompt @ '' with slight variation'')) = Inr data
          \<and> get_prop data ''choices'' = Inr choices \<and> (\<not> truthy choices \<or> choices = JArr [])
          \<longrightarrow> fst (generatePromptForLuma rt basePrompt w) = Inr basePrompt)
   \<and> (fst (generatePromptForLuma rt basePrompt w) = Inr basePrompt
        \<or> (\<exists>data choices len choice text.
              network rt (trace w) (Completions (basePrompt @ '' with slight variation'')) = Inr data
              \<and> get_prop data ''choices'' = Inr choices \<and> truthy choices
              \<and> get_prop choices ''length'' = Inr len \<and> gt_zero rt len = Inr True
              \<and> get_elem0 choices = Inr choice \<and> get_prop choice ''text'' = Inr (JStr text)
              \<and> fst (generatePromptForLuma rt basePrompt w) = Inr (trim text)))"
proof (intro conjI allI impI)
  show "\<exists>prompt. fst (generatePromptForLuma rt basePrompt w) = Inr prompt"
    by (simp add: generatePromptForLuma_fst split: sum.splits)
next
  fix e
  assume "network rt (trace w) (Completions (basePrompt @ '' with slight variation'')) = Inl e"
  then show "fst (generatePromptForLuma rt basePrompt w) = Inr basePrompt"
    by (simp add: generatePromptForLuma_fst)
next
  fix data choices
  assume "network rt (trace w) (Completions (basePrompt @ '' with slight variation'')) = Inr data
          \<and> get_prop data ''choices'' = Inr choices \<and> (\<not> truthy choices \<or> choices = JArr [])"
  then show "fst (generatePromptForLuma rt basePrompt w) = Inr basePrompt"
    by (auto simp: generatePromptForLuma_fst prompt_of_data_def)
next
  show "fst (generatePromptForLuma rt basePrompt w) = Inr basePrompt
        \<or> (\<exists>data choices len choice text.
              network rt (trace w) (Completions (basePrompt @ '' with slight variation'')) = Inr data
              \<and> get_prop data ''choices'' = Inr choices \<and> truthy choices
              \<and> get_prop choices ''length'' = Inr len \<and> gt_zero rt len = Inr True
              \<and> get_elem0 choices = Inr choice \<and> get_prop choice ''text'' = Inr (JStr text)
              \<and> fst (generatePromptForLuma rt basePrompt w) = Inr (trim text))"
  proof (cases "network rt (trace w) (Completions (basePrompt @ '' with slight variation''))")
    case (Inl e)
    then show ?thesis by (simp add: generatePromptForLuma_fst)
  next
    case (Inr data)
    show ?thesis
    proof (cases "prompt_of_data rt basePrompt data")
      case (Inl e)
      with Inr show ?thesis by (simp add: generatePromptForLuma_fst)
    next
      case (Inr prompt)
      from prompt_of_data_cases[OF this] Inr \<open>network rt _ _ = Inr data\<close>
      show ?thesis by (auto simp: generatePromptForLuma_fst)
    qed
  qed
qed

text \<open>
  The theorem at a network that rejects every request, at a body with an empty array of
  choices and at a body without choices.
\<close>

theorem generatePromptForLuma_never_raises_witness:
  "fst (generatePromptForLuma rt_offline ''Ocean waves at sunset'' initial_world)
     = Inr ''Ocean waves at sunset''
   \<and> fst (generatePromptForLuma rt_no_choices ''Ocean waves at sunset'' initial_world)
     = Inr ''Ocean waves at sunset''
   \<and> fst (generatePromptForLuma rt_error_body ''Ocean waves at sunset'' initial_world)
     = Inr ''Ocean waves at sunset''"
  using generatePromptForLuma_never_raises[of rt_offline "''Ocean waves at sunset''" initial_world]
        generatePromptForLuma_never_raises[of rt_no_choices "''Ocean waves at sunset''" initial_world]
        generatePromptForLuma_never_raises[of rt_error_body "''Ocean waves at sunset''" initial_world]
  by (simp add: rt_offline_def rt_no_choices_def rt_error_body_def scripted_def)

text \<open>
  Claim C4. When the \<open>n\<close>-th status fetch of \<^verbatim>\<open>pollGeneration\<close> is the first whose body
  has the status "completed", the earlier ones having been answered by a body with another
  status, the function returns that body after exactly \<open>n\<close> status fetches and \<open>n - 1\<close>
  sleeps, each of the given interval and each between two fetches.
\<close>

theorem pollGeneration_fetches_and_sleeps:
  assumes "to_string rt generationId = Inr path"
    and "0 < n"
    and "\<forall>k<n - 1. is_pending rt (poll_response rt path interval w k)"
    and "poll_response rt path interval w (n - 1) = Inr generation"
    and "is_completed (Inr generation)"
  shows "pollGeneration rt generationId interval w =
           Some (Inr generation, w\<lparr>trace := trace w @ poll_events (GetGeneration path) interval n\<rparr>)
       \<and> fetches_of (poll_events (GetGeneration path) interval n) = replicate n (GetGeneration path)
       \<and> sleeps_of (poll_events (GetGeneration path) interval n) = replicate (n - 1) interval"
proof -
  from assms(4,5) have stop: "\<not> is_pending rt (poll_response rt path interval w (n - 1))"
    by (simp add: is_completed_not_pending)
  from assms(5) have st: "get_prop generation ''status'' = Inr (JStr ''completed'')"
    by (simp add: is_completed_def)
  have "pollGeneration rt generationId interval w =
          Some (Inr generation, w\<lparr>trace := trace w @ poll_events (GetGeneration path) interval n\<rparr>)"
    using poll_result[OF assms(1) assms(3) stop] assms(4) st
    by (simp add: poll_events_def)
  moreover have "fetches_of (poll_events (GetGeneration path) interval n) = replicate n (GetGeneration path)"
    using assms(2)
    by (cases n) (simp_all add: poll_events_def fetches_of_append fetches_of_attempts replicate_append_same)
  moreover have "sleeps_of (poll_events (GetGeneration path) interval n) = replicate (n - 1) interval"
    by (simp add: poll_events_def sleeps_of_append sleeps_of_attempts)
  ultimately show ?thesis by simp
qed

text \<open>
  The theorem at a job that reports "processing", "processing", "completed" (three fetches,
  two sleeps of 10 ms) and at a job that is completed at once (one fetch, no sleep).
\<close>

theorem pollGeneration_fetches_and_sleeps_witness:
  "pollGeneration rt_processing_twice (JStr ''A'') 10 initial_world =
     Some (Inr (job_record ''completed'' ''http://x/a.mp4''),
           initial_world\<lparr>trace :=
             [Fetch (GetGeneration ''A''), Sleep 10, Fetch (GetGeneration ''A''), Sleep 10,
              Fetch (GetGeneration ''A'')]\<rparr>)
   \<and> fetches_of (poll_events (GetGeneration ''A'') 10 3) = replicate 3 (GetGeneration ''A'')
   \<and> sleeps_of (poll_events (GetGeneration ''A'') 10 3) = [10, 10]
   \<and> pollGeneration rt_completed (JStr ''A'') 10 initial_world =
     Some (Inr (job_record ''completed'' ''http://x/a.mp4''),
           initial_world\<lparr>trace := [Fetch (GetGeneration ''A'')]\<rparr>)
   \<and> sleeps_of (poll_events (GetGeneration ''A'') 10 1) = []"
proof -
  let ?done = "job_record ''completed'' ''http://x/a.mp4''"
  have pend: "\<forall>k<3 - 1. is_pending rt_processing_twice (poll_response rt_processing_twice ''A'' 10 initial_world k)"
    by (simp add: all_less_2 rt_processing_twice_def scripted_def poll_response_def is_pending_def
          initial_world_def)
  have third: "poll_response rt_processing_twice ''A'' 10 initial_world (3 - 1) = Inr ?done"
    by (simp add: rt_processing_twice_def scripted_def poll_response_def initial_world_def
          numeral_2_eq_2)
  have first: "poll_response rt_completed ''A'' 10 initial_world (1 - 1) = Inr ?done"
    by (simp add: rt_completed_def scripted_def poll_response_def)
  have compl: "is_completed (Inr ?done)"
    by (simp add: is_completed_def job_record_def)
  have ev3: "poll_events (GetGeneration ''A'') 10 3 =
             [Fetch (GetGeneration ''A''), Sleep 10, Fetch (GetGeneration ''A''), Sleep 10,
              Fetch (GetGeneration ''A'')]"
    by (simp add: poll_events_def numeral_2_eq_2)
  from pollGeneration_fetches_and_sleeps
         [of rt_processing_twice "JStr ''A''" "''A''" 3 10 initial_world ?done, OF _ _ pend third compl]
       pollGeneration_fetches_and_sleeps
         [of rt_completed "JStr ''A''" "''A''" 1 10 initial_world ?done, OF _ _ _ first compl]
  show ?thesis
    by (simp add: ev3 initial_world_def poll_events_def numeral_3_eq_3)
qed

text \<open>
  Claim C5. \<^verbatim>\<open>pollGeneration\<close> returns a job record exactly when some status fetch is
  answered by a body with status "completed", all earlier fetches having been answered by a
  body with another status; it then returns the body of that fetch. When every fetch is
  answered by a body with a status other than "completed", "failed" included, the loop
  never ends: there is no bound on the attempts and no timeout. For a poll whose fetches
  are all answered by a job record, it ends exactly when one of them is completed. (A
  fetch that is rejected ends the loop by throwing, which is not a return.)
\<close>

theorem pollGeneration_returns_iff_completed:
  assumes "to_string rt generationId = Inr path"
  shows "((\<exists>generation w'. pollGeneration rt generationId interval w = Some (Inr generation, w')) \<longleftrightarrow>
          (\<exists>n. is_completed (poll_response rt path interval w n) \<and>
               (\<forall>k<n. is_pending rt (poll_response rt path interval w k))))
       \<and> (\<forall>n generation.
            (\<forall>k<n. is_pending rt (poll_response rt path interval w k)) \<and>
            poll_response rt path interval w n = Inr generation \<and> is_completed (Inr generation)
            \<longrightarrow> (\<exists>w'. pollGeneration rt generationId interval w = Some (Inr generation, w')))
       \<and> ((\<forall>k. is_pending rt (poll_response rt path interval w k))
            \<longrightarrow> pollGeneration rt generationId interval w = None)
       \<and> ((\<forall>k. is_pending rt (poll_response rt path interval w k) \<or>
                 is_completed (poll_response rt path interval w k))
            \<longrightarrow> (pollGeneration rt generationId interval w \<noteq> None \<longleftrightarrow>
                 (\<exists>n. is_completed (poll_response rt path interval w n))))"
proof -
  let ?resp = "poll_response rt path interval w"
  let ?poll = "pollGeneration rt generationId interval w"
  have returns: "\<exists>w'. ?poll = Some (Inr generation, w')"
    if "\<forall>k<n. is_pending rt (?resp k)" "?resp n = Inr generation" "is_completed (Inr generation)"
    for n generation
  proof -
    from that(2,3) have "\<not> is_pending rt (?resp n)" by (simp add: is_completed_not_pending)
    from poll_result[OF assms that(1) this] that(2,3) show ?thesis
      by (simp add: is_completed_def)
  qed
  have never: "?poll = None" if "\<forall>k. is_pending rt (?resp k)"
    using poll_never_completed[OF assms that] .
  have only_if: "\<exists>n. is_completed (?resp n) \<and> (\<forall>k<n. is_pending rt (?resp k))"
    if ret: "?poll = Some (Inr generation, w')" for generation w'
  proof -
    from pending_or_stops[of rt ?resp] show ?thesis
    proof
      assume "\<forall>k. is_pending rt (?resp k)"
      from never[OF this] ret show ?thesis by simp
    next
      assume "\<exists>n. \<not> is_pending rt (?resp n) \<and> (\<forall>k<n. is_pending rt (?resp k))"
      then obtain n where stop: "\<not> is_pending rt (?resp n)" and pend: "\<forall>k<n. is_pending rt (?resp k)"
        by blast
      from poll_result[OF assms pend stop] ret stop have "is_completed (?resp n)"
        by (auto simp: is_completed_def is_pending_def split: sum.splits)
      with pend show ?thesis by blast
    qed
  qed
  have "if": "\<exists>generation w'. ?poll = Some (Inr generation, w')"
    if "is_completed (?resp n)" "\<forall>k<n. is_pending rt (?resp k)" for n
  proof -
    from that(1) obtain generation where "?resp n = Inr generation"
      by (auto simp: is_completed_def split: sum.splits)
    with returns[OF that(2) this] that(1) show ?thesis by auto
  qed
  have status_seq: "?poll \<noteq> None \<longleftrightarrow> (\<exists>n. is_completed (?resp n))"
    if all: "\<forall>k. is_pending rt (?resp k) \<or> is_completed (?resp k)"
  proof
    assume "?poll \<noteq> None"
    with never have "\<not> (\<forall>k. is_pending rt (?resp k))" by blast
    with all show "\<exists>n. is_completed (?resp n)" by blast
  next
    assume "\<exists>n. is_completed (?resp n)"
    then have "\<exists>n. \<not> is_pending rt (?resp n)" using is_completed_not_pending by blast
    with pending_or_stops[of rt ?resp] obtain n where
      stop: "\<not> is_pending rt (?resp n)" and pend: "\<forall>k<n. is_pending rt (?resp k)" by blast
    from stop all have "is_completed (?resp n)" by blast
    from "if"[OF this pend] show "?poll \<noteq> None" by auto
  qed
  show ?thesis
    using returns never only_if "if" status_seq by blast
qed

text \<open>
  The theorem at a job whose status is "failed" for ever, where the poll never ends, and at
  a job that is completed at the third fetch, where it returns.
\<close>

theorem pollGeneration_returns_iff_completed_witness:
  "(\<forall>k. is_pending rt_failed (poll_response rt_failed ''A'' 5000 initial_world k))
   \<and> pollGeneration rt_failed (JStr ''A'') 5000 initial_world = None
   \<and> is_completed (poll_response rt_processing_twice ''A'' 5000 initial_world 2)
   \<and> (\<exists>generation w'. pollGeneration rt_processing_twice (JStr ''A'') 5000 initial_world
                          = Some (Inr generation, w'))"
proof -
  have pend: "\<forall>k. is_pending rt_failed (poll_response rt_failed ''A'' 5000 initial_world k)"
    by (simp add: rt_failed_def scripted_def poll_response_def is_pending_def)
  have c2: "is_completed (poll_response rt_processing_twice ''A'' 5000 initial_world 2)"
    by (simp add: rt_processing_twice_def scripted_def poll_response_def is_completed_def
          job_record_def initial_world_def numeral_2_eq_2)
  have p2: "\<forall>k<2. is_pending rt_processing_twice (poll_response rt_processing_twice ''A'' 5000 initial_world k)"
    by (simp add: all_less_2 rt_processing_twice_def scripted_def poll_response_def is_pending_def
          initial_world_def)
  from pollGeneration_returns_iff_completed[of rt_failed "JStr ''A''" "''A''" 5000 initial_world]
       pollGeneration_returns_iff_completed[of rt_processing_twice "JStr ''A''" "''A''" 5000 initial_world]
       pend c2 p2
  show ?thesis by auto
qed

text \<open>
  Claim C6, as stated: \<^verbatim>\<open>generateVideo\<close> fails when the response has no \<^verbatim>\<open>id\<close>. It does
  not: an error body without \<^verbatim>\<open>id\<close> is returned to the caller like any other body.
\<close>

theorem generateVideo_missing_id_counterexample:
  "fst (generateVideo rt_error_body ''Ocean waves at sunset'' initial_world)
     = Inr (JObj [(''detail'', JStr ''unauthorized'')])
   \<and> get_prop (JObj [(''detail'', JStr ''unauthorized'')]) ''id'' = Inr JUndefined"
  by (simp add: generateVideo_eq rt_error_body_def scripted_def)

text \<open>
  Claim C6, amended. \<^verbatim>\<open>generateVideo\<close> sends one generation request and returns the
  parsed body as it is, so the job id the remote system put in the body reaches the caller;
  a rejection of the request or of the parsing is thrown on to the caller. A body without
  \<^verbatim>\<open>id\<close> is returned as well; the function does not inspect the body.
\<close>

theorem generateVideo_returns_body:
  "(\<forall>e. network rt (trace w) (CreateGeneration prompt) = Inl e
         \<longrightarrow> fst (generateVideo rt prompt w) = Inl e)
   \<and> (\<forall>data. network rt (trace w) (CreateGeneration prompt) = Inr data
         \<longrightarrow> fst (generateVideo rt prompt w) = Inr data)
   \<and> trace (snd (generateVideo rt prompt w)) = trace w @ [Fetch (CreateGeneration prompt)]"
  by (simp add: generateVideo_eq)

text \<open>
  The theorem at a network that rejects the request and at the service that answers with
  job "A".
\<close>

theorem generateVideo_returns_body_witness:
  "fst (generateVideo rt_offline ''Ocean waves at sunset'' initial_world) = Inl FetchError
   \<and> fst (generateVideo e2e_runtime ''Ocean waves at sunset'' initial_world)
       = Inr (JObj [(''id'', JStr ''A'')])"
  using generateVideo_returns_body[of rt_offline initial_world "''Ocean waves at sunset''"]
        generateVideo_returns_body[of e2e_runtime initial_world "''Ocean waves at sunset''"]
  by (simp add: rt_offline_def e2e_runtime_def e2e_network_def scripted_def initial_world_def)

text \<open>
  Claim C2. When the \<^verbatim>\<open>try\<close> block of \<^verbatim>\<open>updateBackground\<close> throws at any step, the error
  is caught: \<^verbatim>\<open>updateBackground\<close> returns normally, \<^verbatim>\<open>currentVideo\<close> (id and URL) and
  \<^verbatim>\<open>currentPrompt\<close> are what they were before the cycle, and the endpoint answers as it
  did before the cycle. This holds from every state, the states committed by a successful
  \<^verbatim>\<open>initializeBackground\<close> among them.
\<close>

theorem updateBackground_failure_preserves_state:
  assumes "updateBackground_try rt w = Some (Inl e, w')"
  shows "updateBackground rt w = Some (Inr (), w')
       \<and> currentVideo w' = currentVideo w
       \<and> currentPrompt w' = currentPrompt w
       \<and> current w' = current w"
  using updateBackground_try_fail[OF assms] updateBackground_caught[OF assms]
  by (simp add: current_def)

text \<open>
  The theorem after a successful initialization with job "A", at a cycle whose generation
  request is rejected: the endpoint still answers with the URL of job "A".
\<close>

theorem updateBackground_failure_preserves_state_witness:
  "initializeBackground rt_one_video initial_world = Some (Inr (), one_video_world)
   \<and> current one_video_world = Json200 (JStr ''http://x/a.mp4'')
   \<and> updateBackground rt_one_video one_video_world =
       Some (Inr (),
         one_video_world\<lparr>trace := trace one_video_world @
           [Fetch (Completions ''A peaceful dynamic nature background with slight variation with slight variation''),
            Fetch (CreateGeneration ''A peaceful dynamic nature background with slight variation with slight variation'')]\<rparr>)
   \<and> current
        (one_video_world\<lparr>trace := trace one_video_world @
           [Fetch (Completions ''A peaceful dynamic nature background with slight variation with slight variation''),
            Fetch (CreateGeneration ''A peaceful dynamic nature background with slight variation with slight variation'')]\<rparr>)
       = Json200 (JStr ''http://x/a.mp4'')"
  using updateBackground_failure_preserves_state[OF one_video_update_try] one_video_initialize
  by (simp add: current_def one_video_world_def)

text \<open>
  Claim C7, as stated: a failing \<^verbatim>\<open>initializeBackground\<close> leaves all of the state as it
  was. It does not: \<^verbatim>\<open>currentPrompt\<close> is assigned before the video is requested, so when
  the video service is unreachable the prompt has changed already.
\<close>

theorem initializeBackground_partial_mutation_counterexample:
  "initializeBackground_try rt_prompt_only initial_world =
     Some (Inl FetchError,
       \<lparr>trace = [Fetch (Completions ''A peaceful dynamic nature background with slight variation''),
                 Fetch (CreateGeneration ''Misty forest at dawn'')],
        currentVideo = \<lparr>id_val = JNull, video_url = JNull\<rparr>,
        currentPrompt = ''Misty forest at dawn''\<rparr>)
   \<and> currentPrompt initial_world = ''A peaceful dynamic nature background''"
  using prompt_only_initialize by (simp add: initial_world_def)

text \<open>
  Claim C7, amended. When the \<^verbatim>\<open>try\<close> block of \<^verbatim>\<open>initializeBackground\<close> throws at any
  step, the error is caught and \<^verbatim>\<open>currentVideo\<close> (id and URL) is what it was before; it
  is assigned only as the last step of a run that succeeds. \<^verbatim>\<open>currentPrompt\<close> holds what
  \<^verbatim>\<open>generatePromptForLuma\<close> returned in the first step.
\<close>

theorem initializeBackground_failure_keeps_video:
  assumes "initializeBackground_try rt w = Some (Inl e, w')"
  shows "initializeBackground rt w = Some (Inr (), w')
       \<and> currentVideo w' = currentVideo w
       \<and> Inr (currentPrompt w') = fst (generatePromptForLuma rt (currentPrompt w) w)"
  using initializeBackground_try_fail[OF assms] initializeBackground_caught[OF assms]
  by simp

text \<open>
  The theorem at a run where the prompt service answers and the video service is
  unreachable.
\<close>

theorem initializeBackground_failure_keeps_video_witness:
  "initializeBackground rt_prompt_only initial_world =
     Some (Inr (),
       \<lparr>trace = [Fetch (Completions ''A peaceful dynamic nature background with slight variation''),
                 Fetch (CreateGeneration ''Misty forest at dawn'')],
        currentVideo = \<lparr>id_val = JNull, video_url = JNull\<rparr>,
        currentPrompt = ''Misty forest at dawn''\<rparr>)
   \<and> currentVideo initial_world = \<lparr>id_val = JNull, video_url = JNull\<rparr>
   \<and> fst (generatePromptForLuma rt_prompt_only (currentPrompt initial_world) initial_world)
       = Inr ''Misty forest at dawn''"
  using initializeBackground_failure_keeps_video[OF prompt_only_initialize]
  by (simp add: initial_world_def)

text \<open>
  Claim C9. As long as \<^verbatim>\<open>currentVideo\<close> is what it is at start, the endpoint answers with
  status 503, "not ready", and not with a URL. When \<^verbatim>\<open>initializeBackground\<close> fails from
  such a state, the error is caught (the function returns normally, so no rejection reaches
  the process) and the endpoint still answers with status 503.
\<close>

theorem current_not_ready_before_commit:
  assumes "currentVideo w = currentVideo initial_world"
    and "initializeBackground_try rt w = Some (Inl e, w')"
  shows "current w = NotReady503
       \<and> initializeBackground rt w = Some (Inr (), w')
       \<and> current w' = NotReady503"
  using initializeBackground_try_fail[OF assms(2)] initializeBackground_caught[OF assms(2)] assms(1)
  by (simp add: current_def initial_world_def)

text \<open>
  The theorem at a network that rejects every request.
\<close>

theorem current_not_ready_before_commit_witness:
  "current initial_world = NotReady503
   \<and> initializeBackground rt_offline initial_world =
     Some (Inr (),
       \<lparr>trace = [Fetch (Completions ''A peaceful dynamic nature background with slight variation''),
                 Fetch (CreateGeneration ''A peaceful dynamic nature background'')],
        currentVideo = \<lparr>id_val = JNull, video_url = JNull\<rparr>,
        currentPrompt = ''A peaceful dynamic nature background''\<rparr>)
   \<and> current
       \<lparr>trace = [Fetch (Completions ''A peaceful dynamic nature background with slight variation''),
                 Fetch (CreateGeneration ''A peaceful dynamic nature background'')],
        currentVideo = \<lparr>id_val = JNull, video_url = JNull\<rparr>,
        currentPrompt = ''A peaceful dynamic nature background''\<rparr> = NotReady503"
  using current_not_ready_before_commit[OF _ offline_initialize]
  by simp

text \<open>
  Claim C10. \<^verbatim>\<open>updateBackground\<close> does not look at the state before it starts. When it runs
  while \<^verbatim>\<open>currentVideo.id\<close> is null, it requests a prompt and a generation and polls the
  new job like from any other state; and when these three steps succeed, the next request
  it sends is an interpolation whose first keyframe is null. In the event loop, the cycle
  reaches the await of that request, whatever happens afterwards; read as a sequential
  function, the cycle has that request in its trace whenever it returns.
\<close>

theorem updateBackground_interpolates_from_unset_state:
  assumes "id_val (currentVideo w) = JNull"
    and "generatePromptForLuma rt (currentPrompt w) w = (Inr newPrompt, w1)"
    and "generateVideo rt newPrompt w1 = (Inr newGenResponse, w2)"
    and "get_prop newGenResponse ''id'' = Inr newGenId"
    and "pollGeneration rt newGenId 5000 w2 = Some (Inr newGeneration, w3)"
  shows "(\<exists>polls.
            trace w3 =
              trace w @ Fetch (Completions (currentPrompt w @ '' with slight variation''))
                      # Fetch (CreateGeneration newPrompt) # polls)
       \<and> (\<exists>n. run_alone rt n (tick \<lparr>globals = w, tasks = []\<rparr>) =
              \<lparr>globals = issue (CreateInterpolation JNull newGenId interpolation_prompt) w3,
               tasks = [Upd_interp newPrompt]\<rparr>)
       \<and> (\<forall>r w'. updateBackground_try rt w = Some (r, w') \<longrightarrow>
              (\<exists>evs. trace w' =
                 trace w3 @ Fetch (CreateInterpolation JNull newGenId interpolation_prompt) # evs))"
proof -
  let ?req0 = "Completions (currentPrompt w @ '' with slight variation'')"
  from assms(2) have p: "newPrompt = prompt_result rt (currentPrompt w) (network rt (trace w) ?req0)"
    and w1: "w1 = issue ?req0 w"
    by (simp_all add: prompt_result_eq)
  from assms(3) have r1: "network rt (trace w1) (CreateGeneration newPrompt) = Inr newGenResponse"
    and w2: "w2 = issue (CreateGeneration newPrompt) w1"
    by (simp_all add: generateVideo_issue)
  from poll_frame[OF assms(5)] obtain polls where t3: "trace w3 = trace w2 @ polls"
    and cv3: "currentVideo w3 = currentVideo w2" by blast
  from w1 w2 assms(1) cv3 have null: "id_val (currentVideo w3) = JNull"
    by (simp add: issue_def)
  have first: "\<exists>polls. trace w3 = trace w @ Fetch ?req0 # Fetch (CreateGeneration newPrompt) # polls"
    using t3 w1 w2 by (simp add: issue_def)
  obtain path where ts: "to_string rt newGenId = Inr path"
  proof (cases "to_string rt newGenId")
    case (Inl e)
    from poll_throw[OF this, of 5000 w2] assms(5) show ?thesis by simp
  next
    case (Inr path)
    then show ?thesis by (rule that)
  qed
  from alone_reaches_interp[OF ts assms(5), of newPrompt] null obtain m where
    m: "run_alone rt m
          \<lparr>globals = issue (GetGeneration path) w2, tasks = [Upd_poll newPrompt newGenId]\<rparr> =
        \<lparr>globals = issue (CreateInterpolation JNull newGenId interpolation_prompt) w3,
         tasks = [Upd_interp newPrompt]\<rparr>"
    by auto
  have second: "\<exists>n. run_alone rt n (tick \<lparr>globals = w, tasks = []\<rparr>) =
              \<lparr>globals = issue (CreateInterpolation JNull newGenId interpolation_prompt) w3,
               tasks = [Upd_interp newPrompt]\<rparr>"
    using alone_upd_start[of rt m w] m r1 ts assms(4)
    unfolding p[symmetric] w1[symmetric] w2[symmetric]
    by (auto simp: poll_fetch_def intro!: exI[of _ "Suc (Suc m)"])
  obtain url where url: "get_prop newGeneration ''video_url'' = Inr url"
    using get_prop_defined[OF poll_Inr_completed[OF assms(5)]] by blast
  have third: "\<exists>evs. trace w' =
          trace w3 @ Fetch (CreateInterpolation JNull newGenId interpolation_prompt) # evs"
    if "updateBackground_try rt w = Some (r, w')" for r w'
    using that assms(2-5) null url
    unfolding updateBackground_try_def
    by (auto simp: interpolateVideos_eq split: sum.splits option.splits prod.splits
             dest!: poll_frame)
  from first second third show ?thesis by blast
qed

text \<open>
  The theorem at a cycle that runs in the initial state, before any initialization.
\<close>

theorem updateBackground_interpolates_from_unset_state_witness:
  "id_val (currentVideo initial_world) = JNull
   \<and> updateBackground_try e2e_runtime initial_world =
       Some (Inr (),
         \<lparr>trace = [Fetch (Completions ''A peaceful dynamic nature background with slight variation''),
                   Fetch (CreateGeneration ''A peaceful dynamic nature background with slight variation''),
                   Fetch (GetGeneration ''A''),
                   Fetch (CreateInterpolation JNull (JStr ''A'') interpolation_prompt),
                   Fetch (GetGeneration ''C'')],
          currentVideo = \<lparr>id_val = JStr ''C'', video_url = JStr ''http://x/c.mp4''\<rparr>,
          currentPrompt = ''A peaceful dynamic nature background with slight variation''\<rparr>)
   \<and> keyframes_of
         [Fetch (Completions ''A peaceful dynamic nature background with slight variation''),
          Fetch (CreateGeneration ''A peaceful dynamic nature background with slight variation''),
          Fetch (GetGeneration ''A''),
          Fetch (CreateInterpolation JNull (JStr ''A'') interpolation_prompt),
          Fetch (GetGeneration ''C'')] = [(JNull, JStr ''A'')]"
proof -
  let ?p = "''A peaceful dynamic nature background with slight variation''"
  let ?w1 = "initial_world\<lparr>trace := [Fetch (Completions ?p)]\<rparr>"
  let ?w2 = "initial_world\<lparr>trace := [Fetch (Completions ?p), Fetch (CreateGeneration ?p)]\<rparr>"
  let ?w3 = "initial_world\<lparr>trace := [Fetch (Completions ?p), Fetch (CreateGeneration ?p),
                                        Fetch (GetGeneration ''A'')]\<rparr>"
  have unset: "id_val (currentVideo initial_world) = JNull"
    by (simp add: initial_world_def)
  have g: "generatePromptForLuma e2e_runtime (currentPrompt initial_world) initial_world = (Inr ?p, ?w1)"
    by (simp add: scenario_simps e2e_runtime_def)
  have v: "generateVideo e2e_runtime ?p ?w1 = (Inr (JObj [(''id'', JStr ''A'')]), ?w2)"
    by (simp add: scenario_simps e2e_runtime_def)
  have i: "get_prop (JObj [(''id'', JStr ''A'')]) ''id'' = Inr (JStr ''A'')"
    by simp
  have p: "pollGeneration e2e_runtime (JStr ''A'') 5000 ?w2 =
             Some (Inr (job_record ''completed'' ''http://x/a.mp4''), ?w3)"
    by (simp add: scenario_simps e2e_runtime_def)
  have u: "updateBackground_try e2e_runtime initial_world =
       Some (Inr (),
         \<lparr>trace = [Fetch (Completions ?p), Fetch (CreateGeneration ?p), Fetch (GetGeneration ''A''),
                   Fetch (CreateInterpolation JNull (JStr ''A'') interpolation_prompt),
                   Fetch (GetGeneration ''C'')],
          currentVideo = \<lparr>id_val = JStr ''C'', video_url = JStr ''http://x/c.mp4''\<rparr>,
          currentPrompt = ?p\<rparr>)"
    by (simp add: scenario_simps e2e_runtime_def)
  from updateBackground_interpolates_from_unset_state[OF unset g v i p] unset u
  show ?thesis by (simp add: initial_world_def)
qed

text \<open>
  Claim C1. The end-to-end scenario. From the initial state, with a prompt service that
  echoes the prompt it is sent and a video service where each job is completed at its first
  status check: after \<^verbatim>\<open>initializeBackground\<close>, whose job is "A", the endpoint answers with
  the URL of "A"; after one \<^verbatim>\<open>updateBackground\<close>, whose new job is "B" and whose
  interpolation is job "C", it answers with the URL of "C"; and the one interpolation
  request of that cycle has the keyframes "A" and "B".
\<close>

theorem e2e_scenario:
  "\<exists>w1 w2.
     initializeBackground e2e_runtime initial_world = Some (Inr (), w1)
     \<and> current w1 = Json200 (JStr ''http://x/a.mp4'')
     \<and> updateBackground e2e_runtime w1 = Some (Inr (), w2)
     \<and> current w2 = Json200 (JStr ''http://x/c.mp4'')
     \<and> keyframes_of (drop (length (trace w1)) (trace w2)) = [(JStr ''A'', JStr ''B'')]"
  using initializeBackground_caught[OF e2e_initialize_try] updateBackground_caught[OF e2e_update_try]
  by (simp add: current_def)

text \<open>
  Claim C8, as stated: at most one refresh cycle runs at a time, and a tick that fires
  while a cycle is running is skipped. It is not: when a cycle is slower than the timer, the
  next tick starts a second cycle while the first one is still sleeping in its poll; and a
  tick that fires while \<^verbatim>\<open>initializeBackground\<close> awaits its first response starts a cycle
  beside it.
\<close>

theorem overlapping_cycles_counterexample:
  "tasks (run e2e_runtime slow_cycle_schedule boot) =
     [Finished, Upd_sleep ''Ocean waves at dawn'' (JStr ''B''), Upd_prompt ''Ocean waves at sunset'']
   \<and> cycles_in_flight (run e2e_runtime slow_cycle_schedule boot) = 2
   \<and> tasks (run e2e_runtime [Tick] boot) =
       [Init_prompt ''A peaceful dynamic nature background'',
        Upd_prompt ''A peaceful dynamic nature background'']"
proof -
  have "tasks (run e2e_runtime [Tick] boot) =
          [Init_prompt ''A peaceful dynamic nature background'',
           Upd_prompt ''A peaceful dynamic nature background'']"
    by (simp add: step_def tick_def boot_def issue_def initial_world_def)
  with slow_cycle_run show ?thesis
    by (simp add: cycles_in_flight_def)
qed

text \<open>
  Claim C8, amended. The timer starts a refresh cycle at every tick, whatever is in flight:
  the tick adds a new activation of \<^verbatim>\<open>updateBackground\<close> to those that exist and leaves
  them as they are, so the number of cycles in flight grows by one; over any run, the
  number of activations started is the number of ticks plus those there were. No tick is
  skipped and none is queued.
\<close>

theorem tick_always_starts_cycle:
  "tasks (step rt Tick s) = tasks s @ [Upd_prompt (currentPrompt (globals s))]
   \<and> cycles_in_flight (step rt Tick s) = Suc (cycles_in_flight s)
   \<and> length (tasks (run rt evs s)) = length (tasks s) + ticks_of evs"
  by (simp add: step_def tick_tasks tick_cycles run_length)

end
